theory Spec2Isabelle
  imports Main "HOL-Library.Sublist"
begin

section \<open>JavaScript values\<close>

text \<open>
  The values that travel in a request: the primitives of JavaScript. Numbers are the
  integers (post ids); a flat key-value bag (the post meta) is an association list in
  the order of its keys.
\<close>

datatype jsval = JUndefined | JNull | JBool bool | JNum int | JStr string

type_synonym jsobj = "(string \<times> jsval) list"

text \<open>The test \<^verbatim>\<open>! v\<close> of JavaScript is \<open>\<not> truthy v\<close>.\<close>

fun truthy :: "jsval \<Rightarrow> bool" where
  "truthy JUndefined = False"
| "truthy JNull = False"
| "truthy (JBool b) = b"
| "truthy (JNum n) = (n \<noteq> 0)"
| "truthy (JStr s) = (s \<noteq> [])"

fun string_of_nat :: "nat \<Rightarrow> string" where
  "string_of_nat n =
     (if n < 10 then [''0123456789'' ! n]
      else string_of_nat (n div 10) @ [''0123456789'' ! (n mod 10)])"

declare string_of_nat.simps [simp del]

text \<open>What a template literal \<^verbatim>\<open>${ v }\<close> inserts for a value.\<close>

fun js_to_string :: "jsval \<Rightarrow> string" where
  "js_to_string JUndefined = ''undefined''"
| "js_to_string JNull = ''null''"
| "js_to_string (JBool b) = (if b then ''true'' else ''false'')"
| "js_to_string (JNum n) =
     (if n < 0 then ''-'' @ string_of_nat (nat (- n)) else string_of_nat (nat n))"
| "js_to_string (JStr s) = s"

text \<open>
  \<^verbatim>\<open>s.indexOf( t )\<close>: the position of the first occurrence of \<open>t\<close> in \<open>s\<close>,
  or \<open>-1\<close>.
\<close>

fun indexOf :: "string \<Rightarrow> string \<Rightarrow> int" where
  "indexOf [] t = (if t = [] then 0 else - 1)"
| "indexOf (c # s) t =
     (if prefix t (c # s) then 0
      else (let r = indexOf s t in if r = - 1 then - 1 else r + 1))"

section \<open>The lodash helpers on flat key-value bags\<close>

text \<open>
  \<^verbatim>\<open>pick( object, keys )\<close> builds a new object from the keys of the list that the
  object has, in the order of the list; on \<^verbatim>\<open>undefined\<close> it gives the empty object.
  \<^verbatim>\<open>omit( object, keys )\<close> keeps the properties whose key is not in the list.
  \<^verbatim>\<open>includes( list, v )\<close> is membership; \<^verbatim>\<open>null\<close> is in no list of strings.
  The keys are plain property names (no deep paths).
\<close>

definition pick :: "jsobj option \<Rightarrow> string list \<Rightarrow> jsobj" where
  "pick object ks =
     (case object of
        None \<Rightarrow> []
      | Some m \<Rightarrow>
          List.map_filter
            (\<lambda>k. case map_of m k of None \<Rightarrow> None | Some v \<Rightarrow> Some (k, v)) ks)"

definition omit :: "jsobj \<Rightarrow> string list \<Rightarrow> jsobj" where
  "omit m ks = filter (\<lambda>kv. fst kv \<notin> set ks) m"

definition includes_list :: "string list \<Rightarrow> string option \<Rightarrow> bool" where
  "includes_list xs v = (case v of None \<Rightarrow> False | Some s \<Rightarrow> s \<in> set xs)"

definition POST_META_WHITELIST :: "string list" where
  "POST_META_WHITELIST =
     [''is_public'', ''preview_text'', ''diable_ads'', ''font_body'', ''font_header'',
      ''background_color'', ''custom_css'', ''newsletter_sent'']"

section \<open>Requests, responses and the trace of external calls\<close>

text \<open>
  The \<^verbatim>\<open>data\<close> of a request, with the properties the middleware reads or writes
  and the remaining ones in \<open>data_rest\<close>. An absent property is \<open>JUndefined\<close>
  (\<open>None\<close> for \<open>meta\<close>).
\<close>

record reqdata =
  data_content :: jsval
  data_id :: jsval
  data_title :: jsval
  data_post_id :: jsval
  data_meta :: "jsobj option"
  data_rest :: jsobj

text \<open>
  The options of a request. \<^verbatim>\<open>method\<close>, \<^verbatim>\<open>path\<close> and \<^verbatim>\<open>data\<close> are optional
  (a request may be addressed by \<^verbatim>\<open>url\<close> and carry no \<^verbatim>\<open>path\<close>); \<open>None\<close> is
  \<^verbatim>\<open>undefined\<close>.
\<close>

record options =
  opt_method :: "string option"
  opt_path :: "string option"
  opt_data :: "reqdata option"
  opt_rest :: jsobj

text \<open>The empty object \<^verbatim>\<open>{}\<close>, the default of \<^verbatim>\<open>data\<close>.\<close>

definition empty_data :: reqdata where
  "empty_data =
     \<lparr>data_content = JUndefined, data_id = JUndefined, data_title = JUndefined,
      data_post_id = JUndefined, data_meta = None, data_rest = []\<rparr>"

datatype error = TypeError | Rejected string

text \<open>What a request resolves with: the \<^verbatim>\<open>mjml\<close> property of the response, when it has one.\<close>

datatype response = Response "string option"

record imgsize =
  width :: nat
  height :: nat

text \<open>
  Every call that leaves the middleware is an event, with its outcome: a request sent
  with \<^verbatim>\<open>apiFetch\<close>, an image loaded by \<^verbatim>\<open>getImageSize\<close>, and the call of
  \<^verbatim>\<open>next\<close>. A promise that rejects is \<open>Inl\<close>.
\<close>

datatype event =
    ApiFetch options "error + response"
  | ImageLoad string "error + imgsize"
  | Next options "error + response"

section \<open>The markup as a tree\<close>

text \<open>
  The content of the \<^verbatim>\<open>template\<close> element: a list of nodes. An element has a tag name,
  its attributes in order, and its children. An element is addressed by its path: the
  index of a top-level node, then the indices of children.
\<close>

datatype node = Element string "(string \<times> string) list" "node list" | TextNode string

fun node_in :: "node \<Rightarrow> nat list \<Rightarrow> node option" where
  "node_in n [] = Some n"
| "node_in (Element t a cs) (i # p) = (if i < length cs then node_in (cs ! i) p else None)"
| "node_in (TextNode s) (i # p) = None"

fun node_at :: "node list \<Rightarrow> nat list \<Rightarrow> node option" where
  "node_at d [] = None"
| "node_at d (i # p) = (if i < length d then node_in (d ! i) p else None)"

fun upd_in :: "(node \<Rightarrow> node) \<Rightarrow> nat list \<Rightarrow> node \<Rightarrow> node" where
  "upd_in f [] n = f n"
| "upd_in f (i # p) (Element t a cs) =
     Element t a (if i < length cs then cs[i := upd_in f p (cs ! i)] else cs)"
| "upd_in f (i # p) (TextNode s) = TextNode s"

fun upd_at :: "(node \<Rightarrow> node) \<Rightarrow> nat list \<Rightarrow> node list \<Rightarrow> node list" where
  "upd_at f [] d = d"
| "upd_at f (i # p) d = (if i < length d then d[i := upd_in f p (d ! i)] else d)"

text \<open>
  \<^verbatim>\<open>querySelectorAll( tag )\<close>: the paths of the elements with that tag name, in
  document order (an element before its descendants, siblings from left to right).
\<close>

fun sel_node :: "string \<Rightarrow> node \<Rightarrow> nat list list"
  and sel_nodes :: "string \<Rightarrow> nat \<Rightarrow> node list \<Rightarrow> nat list list" where
  "sel_node t (Element tg a cs) = (if tg = t then [[]] else []) @ sel_nodes t 0 cs"
| "sel_node t (TextNode s) = []"
| "sel_nodes t i [] = []"
| "sel_nodes t i (n # ns) = map ((#) i) (sel_node t n) @ sel_nodes t (Suc i) ns"

definition querySelectorAll :: "node list \<Rightarrow> string \<Rightarrow> nat list list" where
  "querySelectorAll d t = sel_nodes t 0 d"

text \<open>\<^verbatim>\<open>getAttribute\<close> gives \<^verbatim>\<open>null\<close> (\<open>None\<close>) when the element has no such attribute.\<close>

definition getAttribute :: "node list \<Rightarrow> nat list \<Rightarrow> string \<Rightarrow> string option" where
  "getAttribute d p k =
     (case node_at d p of Some (Element t a cs) \<Rightarrow> map_of a k | _ \<Rightarrow> None)"

text \<open>
  \<^verbatim>\<open>setAttribute\<close> replaces the value of the attribute when the element has it, and
  appends the attribute otherwise.
\<close>

definition set_attr :: "string \<Rightarrow> string \<Rightarrow> (string \<times> string) list \<Rightarrow> (string \<times> string) list" where
  "set_attr k v a =
     (if k \<in> fst ` set a then map (\<lambda>kv. if fst kv = k then (k, v) else kv) a
      else a @ [(k, v)])"

fun set_attr_node :: "string \<Rightarrow> string \<Rightarrow> node \<Rightarrow> node" where
  "set_attr_node k v (Element t a cs) = Element t (set_attr k v a) cs"
| "set_attr_node k v (TextNode s) = TextNode s"

definition setAttribute :: "node list \<Rightarrow> nat list \<Rightarrow> string \<Rightarrow> string \<Rightarrow> node list" where
  "setAttribute d p k v = upd_at (set_attr_node k v) p d"

section \<open>The page, the editor and the world outside\<close>

text \<open>
  What the middleware reads from the page and from the editor's data store, all of it
  before its first suspension: the configuration object
  \<^verbatim>\<open>window.newspack_email_editor_data\<close>, the current post type, and the edited
  post's \<^verbatim>\<open>meta\<close>.
\<close>

record env =
  mjml_handling_post_types :: "string list"
  email_html_meta :: string
  currentPostType :: "string option"
  editedPostMeta :: "jsobj option"

text \<open>
  The world outside: the network behind \<^verbatim>\<open>apiFetch\<close>, the image loader, the rest of
  the middleware chain, each answering from the calls made so far; the browser's parser
  and serialiser of markup; and the converter \<^verbatim>\<open>mjml2html\<close>, which may throw.
\<close>

record world =
  apiFetch :: "event list \<Rightarrow> options \<Rightarrow> error + response"
  loadImage :: "event list \<Rightarrow> string \<Rightarrow> error + imgsize"
  next_mw :: "event list \<Rightarrow> options \<Rightarrow> error + response"
  parseHTML :: "string \<Rightarrow> node list"
  serializeHTML :: "node list \<Rightarrow> string"
  mjml2html :: "string \<Rightarrow> error + string"

section \<open>\<^verbatim>\<open>getImageSize\<close> and \<^verbatim>\<open>fixImagesWidth\<close>\<close>

text \<open>
  \<^verbatim>\<open>getImageSize( src )\<close> sets \<^verbatim>\<open>img.src\<close> (a \<^verbatim>\<open>null\<close> becomes the string
  \<^verbatim>\<open>null\<close>) and resolves with the size once the image has loaded, or rejects.
  The result comes with the trace extended by the load.
\<close>

definition src_string :: "string option \<Rightarrow> string" where
  "src_string src = (case src of None \<Rightarrow> ''null'' | Some s \<Rightarrow> s)"

definition getImageSize ::
  "world \<Rightarrow> event list \<Rightarrow> string option \<Rightarrow> (error + imgsize) \<times> event list" where
  "getImageSize w h src =
     (let r = loadImage w h (src_string src) in (r, h @ [ImageLoad (src_string src) r]))"

text \<open>
  The test \<^verbatim>\<open>! element.getAttribute( 'width' )\<close>: true when the attribute is absent
  (\<^verbatim>\<open>null\<close>) and when its value is the empty string.
\<close>

fun falsy_attr :: "string option \<Rightarrow> bool" where
  "falsy_attr None = True"
| "falsy_attr (Some s) = (s = [])"

text \<open>The body of the \<^verbatim>\<open>for\<close> loop of \<^verbatim>\<open>fixImagesWidth\<close>, over the list of images.\<close>

fun fix_loop ::
  "world \<Rightarrow> nat list list \<Rightarrow> node list \<Rightarrow> event list \<Rightarrow> (error + node list) \<times> event list" where
  "fix_loop w [] d h = (Inr d, h)"
| "fix_loop w (element # images) d h =
     (if falsy_attr (getAttribute d element ''width'') then
        (case getImageSize w h (getAttribute d element ''src'') of
           (Inl e, h') \<Rightarrow> (Inl e, h')
         | (Inr sz, h') \<Rightarrow>
             fix_loop w images
               (setAttribute d element ''width'' (string_of_nat (width sz))) h')
      else fix_loop w images d h)"

text \<open>The fragment that \<^verbatim>\<open>fixImagesWidth\<close> serialises at its end.\<close>

definition fixImagesWidth_dom ::
  "world \<Rightarrow> string \<Rightarrow> event list \<Rightarrow> (error + node list) \<times> event list" where
  "fixImagesWidth_dom w mjml h =
     (let template = parseHTML w mjml;
          images = querySelectorAll template ''mj-image''
      in fix_loop w images template h)"

definition fixImagesWidth ::
  "world \<Rightarrow> string \<Rightarrow> event list \<Rightarrow> (error + string) \<times> event list" where
  "fixImagesWidth w mjml h =
     (case fixImagesWidth_dom w mjml h of
        (Inl e, h') \<Rightarrow> (Inl e, h')
      | (Inr d, h') \<Rightarrow> (Inr (serializeHTML w d), h'))"

section \<open>The middleware\<close>

text \<open>
  \<^verbatim>\<open>mjmlHandlingPostTypes.some( postType => path.indexOf( postType ) !== -1 )\<close>:
  the callback runs on the post types in order until one is found in the path, and
  reading \<^verbatim>\<open>indexOf\<close> of an \<^verbatim>\<open>undefined\<close> path throws a TypeError.
\<close>

fun some_in_path :: "string option \<Rightarrow> string list \<Rightarrow> error + bool" where
  "some_in_path path [] = Inr False"
| "some_in_path None (postType # ts) = Inl TypeError"
| "some_in_path (Some p) (postType # ts) =
     (if indexOf p postType \<noteq> - 1 then Inr True else some_in_path (Some p) ts)"

text \<open>A call of \<^verbatim>\<open>apiFetch\<close> and the call of \<^verbatim>\<open>next\<close>, each recorded in the trace.\<close>

definition api_call ::
  "world \<Rightarrow> event list \<Rightarrow> options \<Rightarrow> (error + response) \<times> event list" where
  "api_call w h req = (let r = apiFetch w h req in (r, h @ [ApiFetch req r]))"

definition forward ::
  "world \<Rightarrow> event list \<Rightarrow> options \<Rightarrow> (error + response) \<times> event list" where
  "forward w h options = (let r = next_mw w h options in (r, h @ [Next options r]))"

text \<open>The template literal \<^verbatim>\<open>/wp/v2/${ postType }/${ data.id }\<close>.\<close>

definition post_path :: "string option \<Rightarrow> jsval \<Rightarrow> string" where
  "post_path postType i =
     ''/wp/v2/'' @ (case postType of None \<Rightarrow> ''null'' | Some s \<Rightarrow> s) @ ''/'' @ js_to_string i"

text \<open>The three requests the middleware sends, as they are written in the source.\<close>

definition meta_request :: "string option \<Rightarrow> jsval \<Rightarrow> jsobj \<Rightarrow> options" where
  "meta_request postType i m =
     \<lparr>opt_method = Some ''POST'', opt_path = Some (post_path postType i),
      opt_data = Some (empty_data\<lparr>data_meta := Some m\<rparr>), opt_rest = []\<rparr>"

definition mjml_request :: "reqdata \<Rightarrow> options" where
  "mjml_request data =
     \<lparr>opt_method = Some ''POST'', opt_path = Some ''/newspack-newsletters/v1/post-mjml'',
      opt_data = Some (empty_data\<lparr>data_post_id := data_id data, data_title := data_title data,
                                  data_content := data_content data\<rparr>),
      opt_rest = []\<rparr>"

text \<open>
  \<^verbatim>\<open>options.data.meta = omit( options.data.meta, [ ...POST_META_WHITELIST, emailHTMLMetaName ] )\<close>,
  done only when the request carries a \<^verbatim>\<open>meta\<close>.
\<close>

definition strip_meta :: "string \<Rightarrow> options \<Rightarrow> options" where
  "strip_meta emailHTMLMetaName options =
     (case opt_data options of
        None \<Rightarrow> options
      | Some d \<Rightarrow>
          (case data_meta d of
             None \<Rightarrow> options
           | Some m \<Rightarrow>
               options\<lparr>opt_data :=
                 Some (d\<lparr>data_meta := Some (omit m (POST_META_WHITELIST @ [emailHTMLMetaName]))\<rparr>)\<rparr>))"

text \<open>
  The destructuring \<^verbatim>\<open>let { mjml } = await apiFetch( ... )\<close>, as the markup that
  \<^verbatim>\<open>template.innerHTML = mjml\<close> receives: an \<^verbatim>\<open>undefined\<close> is set as the string
  \<^verbatim>\<open>undefined\<close>.
\<close>

fun response_mjml :: "response \<Rightarrow> string" where
  "response_mjml (Response None) = ''undefined''"
| "response_mjml (Response (Some s)) = s"

text \<open>The destructuring \<^verbatim>\<open>const { data = {} } = options\<close>.\<close>

definition request_data :: "options \<Rightarrow> reqdata" where
  "request_data options = (case opt_data options of None \<Rightarrow> empty_data | Some d \<Rightarrow> d)"

text \<open>
  The middleware registered with \<^verbatim>\<open>apiFetch.use\<close>. It returns what its promise
  settles with, and the trace of the calls it made.
\<close>

definition middleware ::
  "world \<Rightarrow> env \<Rightarrow> options \<Rightarrow> (error + response) \<times> event list" where
  "middleware w env options =
     (let method = opt_method options;
          path = opt_path options;
          data = request_data options
      in
      if method \<noteq> Some ''POST'' \<and> method \<noteq> Some ''PUT'' then forward w [] options
      else if \<not> truthy (data_content data) \<or> \<not> truthy (data_id data) then forward w [] options
      else
        let mjmlHandlingPostTypes = mjml_handling_post_types env in
        case some_in_path path mjmlHandlingPostTypes of
          Inl e \<Rightarrow> (Inl e, [])
        | Inr found \<Rightarrow>
            if \<not> found then forward w [] options
            else
              let postType = currentPostType env in
              if \<not> includes_list mjmlHandlingPostTypes postType then forward w [] options
              else
                let emailHTMLMetaName = email_html_meta env;
                    options' = strip_meta emailHTMLMetaName options;
                    postMeta = editedPostMeta env
                in
                (case api_call w []
                       (meta_request postType (data_id data) (pick postMeta POST_META_WHITELIST)) of
                  (Inl e, h1) \<Rightarrow> (Inl e, h1)
                | (Inr r1, h1) \<Rightarrow>
                    (case api_call w h1 (mjml_request data) of
                       (Inl e, h2) \<Rightarrow> (Inl e, h2)
                     | (Inr r2, h2) \<Rightarrow>
                         (case fixImagesWidth w (response_mjml r2) h2 of
                            (Inl e, h3) \<Rightarrow> (Inl e, h3)
                          | (Inr mjml', h3) \<Rightarrow>
                              (case mjml2html w mjml' of
                                 Inl e \<Rightarrow> (Inl e, h3)
                               | Inr html \<Rightarrow>
                                   (case api_call w h3
                                           (meta_request postType (data_id data)
                                              [(emailHTMLMetaName, JStr html)]) of
                                      (Inl e, h4) \<Rightarrow> (Inl e, h4)
                                    | (Inr r3, h4) \<Rightarrow> forward w h4 options'))))))"

text \<open>The four filters at the head of the middleware: true when the request passes them all.\<close>

definition passes_filters :: "env \<Rightarrow> options \<Rightarrow> bool" where
  "passes_filters env options =
     (let data = request_data options in
      (opt_method options = Some ''POST'' \<or> opt_method options = Some ''PUT'')
      \<and> truthy (data_content data) \<and> truthy (data_id data)
      \<and> some_in_path (opt_path options) (mjml_handling_post_types env) = Inr True
      \<and> includes_list (mjml_handling_post_types env) (currentPostType env))"

section \<open>Observations on trees and traces\<close>

text \<open>The tag name and the attributes of the element at a path, if there is one.\<close>

fun tag_of :: "node option \<Rightarrow> string option" where
  "tag_of (Some (Element t a cs)) = Some t"
| "tag_of _ = None"

fun attrs_of :: "node option \<Rightarrow> (string \<times> string) list option" where
  "attrs_of (Some (Element t a cs)) = Some a"
| "attrs_of _ = None"

text \<open>
  The images that the loop has to load: those whose \<^verbatim>\<open>width\<close> is absent or empty,
  in the order of the list; and the event of loading the image of one of them.
\<close>

definition missing_width :: "node list \<Rightarrow> nat list list \<Rightarrow> nat list list" where
  "missing_width d ps = filter (\<lambda>p. falsy_attr (getAttribute d p ''width'')) ps"

definition load_event :: "node list \<Rightarrow> nat list \<Rightarrow> imgsize \<Rightarrow> event" where
  "load_event d p sz = ImageLoad (src_string (getAttribute d p ''src'')) (Inr sz)"

definition image_loads :: "world \<Rightarrow> string \<Rightarrow> imgsize list \<Rightarrow> event list" where
  "image_loads w mjml sizes =
     (let d = parseHTML w mjml
      in map2 (load_event d) (missing_width d (querySelectorAll d ''mj-image'')) sizes)"

text \<open>
  An event is answered by the world from the trace before it; a list of events is
  sequential from a trace when each of them is answered from the trace and the events
  before it, that is, when each call was made once all the earlier ones had settled.
\<close>

fun answered :: "world \<Rightarrow> event list \<Rightarrow> event \<Rightarrow> bool" where
  "answered w h (ApiFetch req r) = (apiFetch w h req = r)"
| "answered w h (ImageLoad s r) = (loadImage w h s = r)"
| "answered w h (Next options r) = (next_mw w h options = r)"

fun sequential :: "world \<Rightarrow> event list \<Rightarrow> event list \<Rightarrow> bool" where
  "sequential w h [] = True"
| "sequential w h (e # es) = (answered w h e \<and> sequential w (h @ [e]) es)"

text \<open>The kinds of events, and the error of a step (a request or an image load) that rejects.\<close>

fun step_rejected :: "event \<Rightarrow> error option" where
  "step_rejected (ApiFetch req (Inl e)) = Some e"
| "step_rejected (ImageLoad s (Inl e)) = Some e"
| "step_rejected _ = None"

fun is_load :: "event \<Rightarrow> bool" where
  "is_load (ImageLoad s r) = True"
| "is_load _ = False"

fun is_api_call :: "event \<Rightarrow> bool" where
  "is_api_call (ApiFetch req r) = True"
| "is_api_call _ = False"

fun is_next :: "event \<Rightarrow> bool" where
  "is_next (Next options r) = True"
| "is_next _ = False"

text \<open>The first and the third request of the middleware, for a given request.\<close>

definition save_meta_request :: "env \<Rightarrow> options \<Rightarrow> options" where
  "save_meta_request env options =
     meta_request (currentPostType env) (data_id (request_data options))
       (pick (editedPostMeta env) POST_META_WHITELIST)"

definition save_html_request :: "env \<Rightarrow> options \<Rightarrow> string \<Rightarrow> options" where
  "save_html_request env options html =
     meta_request (currentPostType env) (data_id (request_data options))
       [(email_html_meta env, JStr html)]"

section \<open>Example inputs\<close>

text \<open>
  A markup with three images: one without \<^verbatim>\<open>width\<close>, one with an empty
  \<^verbatim>\<open>width\<close>, one with a \<^verbatim>\<open>width\<close>; its tree, and the tree and the markup
  after the widths are filled in.
\<close>

definition demo_mjml :: string where
  "demo_mjml = ''<mj-column><mj-image src=a.png></mj-image><mj-image width src=b.png></mj-image><mj-image width=300px src=c.png></mj-image></mj-column>''"

definition demo_template :: "node list" where
  "demo_template =
     [Element ''mj-column'' []
        [Element ''mj-image'' [(''src'', ''a.png'')] [],
         Element ''mj-image'' [(''width'', ''''), (''src'', ''b.png'')] [],
         Element ''mj-image'' [(''width'', ''300px''), (''src'', ''c.png'')] []]]"

definition demo_fixed :: "node list" where
  "demo_fixed =
     [Element ''mj-column'' []
        [Element ''mj-image'' [(''src'', ''a.png''), (''width'', ''640'')] [],
         Element ''mj-image'' [(''width'', ''120''), (''src'', ''b.png'')] [],
         Element ''mj-image'' [(''width'', ''300px''), (''src'', ''c.png'')] []]]"

definition demo_fixed_mjml :: string where
  "demo_fixed_mjml = ''<mj-column><mj-image src=a.png width=640></mj-image><mj-image width=120 src=b.png></mj-image><mj-image width=300px src=c.png></mj-image></mj-column>''"

text \<open>
  A world in which every call succeeds, the same world with an image that fails to load,
  a page configuration, and a save request of a newsletter with its trace in each world.
\<close>

definition demo_world :: world where
  "demo_world =
     \<lparr>apiFetch = (\<lambda>h req. if opt_path req = Some ''/newspack-newsletters/v1/post-mjml''
                          then Inr (Response (Some demo_mjml)) else Inr (Response None)),
      loadImage = (\<lambda>h s. Inr (if s = ''a.png'' then \<lparr>width = 640, height = 480\<rparr>
                                else \<lparr>width = 120, height = 90\<rparr>)),
      next_mw = (\<lambda>h options. Inr (Response None)),
      parseHTML = (\<lambda>s. if s = demo_mjml then demo_template else []),
      serializeHTML = (\<lambda>d. if d = demo_fixed then demo_fixed_mjml else []),
      mjml2html = (\<lambda>s. Inr (''<html>'' @ s @ ''</html>''))\<rparr>"

definition failing_world :: world where
  "failing_world =
     demo_world\<lparr>loadImage := (\<lambda>h s. if s = ''b.png'' then Inl (Rejected ''load error'')
                                    else loadImage demo_world h s)\<rparr>"

definition demo_env :: env where
  "demo_env =
     \<lparr>mjml_handling_post_types = [''newspack_nl_cpt'', ''newspack_nl_ads_cpt''],
      email_html_meta = ''newspack_email_html'',
      currentPostType = Some ''newspack_nl_cpt'',
      editedPostMeta = Some [(''is_public'', JBool False), (''preview_text'', JStr ''Hi''),
                             (''template_id'', JNum 3)]\<rparr>"

definition demo_data :: reqdata where
  "demo_data =
     \<lparr>data_content = JStr ''<p>Hello</p>'', data_id = JNum 12, data_title = JStr ''News'',
      data_post_id = JUndefined,
      data_meta = Some [(''is_public'', JBool True), (''newspack_email_html'', JStr ''old''),
                        (''foo'', JNum 1)],
      data_rest = [(''status'', JStr ''draft'')]\<rparr>"

definition demo_options :: options where
  "demo_options =
     \<lparr>opt_method = Some ''POST'', opt_path = Some ''/wp/v2/newspack_nl_cpt/12'',
      opt_data = Some demo_data, opt_rest = []\<rparr>"

definition pathless_options :: options where
  "pathless_options = demo_options\<lparr>opt_path := None\<rparr>"

definition demo_trace :: "event list" where
  "demo_trace =
     [ApiFetch (meta_request (Some ''newspack_nl_cpt'') (JNum 12)
                  [(''is_public'', JBool False), (''preview_text'', JStr ''Hi'')])
        (Inr (Response None)),
      ApiFetch (mjml_request demo_data) (Inr (Response (Some demo_mjml))),
      ImageLoad ''a.png'' (Inr \<lparr>width = 640, height = 480\<rparr>),
      ImageLoad ''b.png'' (Inr \<lparr>width = 120, height = 90\<rparr>),
      ApiFetch (meta_request (Some ''newspack_nl_cpt'') (JNum 12)
                  [(''newspack_email_html'', JStr (''<html>'' @ demo_fixed_mjml @ ''</html>''))])
        (Inr (Response None)),
      Next (demo_options\<lparr>opt_data := Some (demo_data\<lparr>data_meta := Some [(''foo'', JNum 1)]\<rparr>)\<rparr>)
        (Inr (Response None))]"

definition failing_trace :: "event list" where
  "failing_trace =
     [ApiFetch (meta_request (Some ''newspack_nl_cpt'') (JNum 12)
                  [(''is_public'', JBool False), (''preview_text'', JStr ''Hi'')])
        (Inr (Response None)),
      ApiFetch (mjml_request demo_data) (Inr (Response (Some demo_mjml))),
      ImageLoad ''a.png'' (Inr \<lparr>width = 640, height = 480\<rparr>),
      ImageLoad ''b.png'' (Inl (Rejected ''load error''))]"

section \<open>Lemmas on the tree\<close>

lemma node_in_set_attr_node [simp]:
  "node_in (set_attr_node k v n) (i # q) = node_in n (i # q)"
  by (cases n) auto

lemma tag_of_set_attr_node [simp]:
  "tag_of (Some (set_attr_node k v n)) = tag_of (Some n)"
  by (cases n) auto

lemma tag_of_upd_in:
  "tag_of (node_in (upd_in (set_attr_node k v) p n) q) = tag_of (node_in n q)"
proof (induction p arbitrary: n q)
  case Nil
  then show ?case by (cases q) auto
next
  case (Cons i p)
  show ?case
  proof (cases n)
    case (Element t a cs)
    show ?thesis
    proof (cases q)
      case Nil
      with Element show ?thesis by simp
    next
      case (Cons j q')
      with Element Cons.IH show ?thesis
        by (cases "j = i") (auto simp: nth_list_update)
    qed
  next
    case (TextNode s)
    then show ?thesis by simp
  qed
qed

lemma attrs_of_upd_in:
  "attrs_of (node_in (upd_in (set_attr_node k v) p n) q) =
     (if q = p then map_option (set_attr k v) (attrs_of (node_in n p))
      else attrs_of (node_in n q))"
proof (induction p arbitrary: n q)
  case Nil
  then show ?case by (cases q; cases n) auto
next
  case (Cons i p)
  show ?case
  proof (cases n)
    case (Element t a cs)
    show ?thesis
    proof (cases q)
      case Nil
      with Element show ?thesis by simp
    next
      case (Cons j q')
      with Element Cons.IH show ?thesis
        by (cases "j = i") (auto simp: nth_list_update)
    qed
  next
    case (TextNode s)
    then show ?thesis by (cases q) auto
  qed
qed

lemma tag_of_setAttribute:
  "tag_of (node_at (setAttribute d p k v) q) = tag_of (node_at d q)"
  by (cases p; cases q) (auto simp: setAttribute_def nth_list_update tag_of_upd_in)

lemma attrs_of_setAttribute:
  "attrs_of (node_at (setAttribute d p k v) q) =
     (if q = p then map_option (set_attr k v) (attrs_of (node_at d p))
      else attrs_of (node_at d q))"
  by (cases p; cases q) (auto simp: setAttribute_def nth_list_update attrs_of_upd_in)

lemma getAttribute_attrs:
  "getAttribute d p k = (case attrs_of (node_at d p) of None \<Rightarrow> None | Some a \<Rightarrow> map_of a k)"
  by (cases "node_at d p" rule: attrs_of.cases) (auto simp: getAttribute_def)

lemma map_of_replace:
  "map_of (map (\<lambda>kv. if fst kv = k then (k, v) else kv) a) k' =
     (if k' = k then (if k \<in> fst ` set a then Some v else None) else map_of a k')"
  by (induction a) force+

lemma map_of_append_new:
  "k \<notin> fst ` set a \<Longrightarrow> map_of (a @ [(k, v)]) k' = (if k' = k then Some v else map_of a k')"
  by (induction a) auto

lemma map_of_set_attr:
  "map_of (set_attr k v a) k' = (if k' = k then Some v else map_of a k')"
proof (cases "k \<in> fst ` set a")
  case True
  then show ?thesis by (simp add: set_attr_def map_of_replace)
next
  case False
  then show ?thesis by (simp add: set_attr_def map_of_append_new del: map_of_append)
qed

lemma getAttribute_setAttribute:
  "getAttribute (setAttribute d p k v) q k' =
     (if q = p \<and> k' = k \<and> tag_of (node_at d p) \<noteq> None then Some v else getAttribute d q k')"
  apply (simp add: getAttribute_attrs attrs_of_setAttribute map_of_set_attr split: option.splits)
  apply (cases "node_at d p" rule: tag_of.cases; auto)
  done

lemma sel_mem:
  "(q \<in> set (sel_node t n)) = (tag_of (node_in n q) = Some t)"
  "(p \<in> set (sel_nodes t i ns)) =
     (\<exists>j q. p = (i + j) # q \<and> j < length ns \<and> tag_of (node_in (ns ! j) q) = Some t)"
proof (induction t n and t i ns arbitrary: q and p rule: sel_node_sel_nodes.induct)
  case (1 t tg a cs)
  then show ?case by (cases q) auto
next
  case (2 t s)
  then show ?case by (cases q) auto
next
  case (3 t i)
  then show ?case by simp
next
  case (4 t i n ns)
  show ?case
  proof
    assume "p \<in> set (sel_nodes t i (n # ns))"
    then consider q where "p = i # q" "q \<in> set (sel_node t n)" | "p \<in> set (sel_nodes t (Suc i) ns)"
      by auto
    then show "\<exists>j q. p = (i + j) # q \<and> j < length (n # ns) \<and> tag_of (node_in ((n # ns) ! j) q) = Some t"
    proof cases
      case 1
      with 4 have "p = (i + 0) # q \<and> 0 < length (n # ns) \<and> tag_of (node_in ((n # ns) ! 0) q) = Some t"
        by simp
      then show ?thesis by blast
    next
      case 2
      with 4 obtain j q where "p = (Suc i + j) # q" "j < length ns" "tag_of (node_in (ns ! j) q) = Some t"
        by blast
      then have "p = (i + Suc j) # q \<and> Suc j < length (n # ns) \<and> tag_of (node_in ((n # ns) ! Suc j) q) = Some t"
        by simp
      then show ?thesis by blast
    qed
  next
    assume "\<exists>j q. p = (i + j) # q \<and> j < length (n # ns) \<and> tag_of (node_in ((n # ns) ! j) q) = Some t"
    then obtain j q where jq: "p = (i + j) # q" "j < length (n # ns)" "tag_of (node_in ((n # ns) ! j) q) = Some t"
      by blast
    show "p \<in> set (sel_nodes t i (n # ns))"
    proof (cases j)
      case 0
      with jq 4 show ?thesis by simp
    next
      case (Suc j')
      with jq have "p = (Suc i + j') # q \<and> j' < length ns \<and> tag_of (node_in (ns ! j') q) = Some t"
        by simp
      with 4 have "p \<in> set (sel_nodes t (Suc i) ns)" by blast
      then show ?thesis by simp
    qed
  qed
qed

lemma querySelectorAll_mem:
  "(p \<in> set (querySelectorAll d t)) = (tag_of (node_at d p) = Some t)"
  by (cases p) (auto simp: querySelectorAll_def sel_mem)

lemma sel_distinct:
  "distinct (sel_node t n)"
  "distinct (sel_nodes t i ns)"
proof (induction t n and t i ns rule: sel_node_sel_nodes.induct)
  case (1 t tg a cs)
  have "[] \<notin> set (sel_nodes t 0 cs)" by (simp add: sel_mem)
  with 1 show ?case by simp
next
  case (4 t i n ns)
  have "set (map ((#) i) (sel_node t n)) \<inter> set (sel_nodes t (Suc i) ns) = {}"
    by (auto simp: sel_mem)
  with 4 show ?case by (simp add: distinct_map)
qed simp_all

lemma querySelectorAll_distinct: "distinct (querySelectorAll d t)"
  by (simp add: querySelectorAll_def sel_distinct)

section \<open>Lemmas on the loop of \<^verbatim>\<open>fixImagesWidth\<close>\<close>

lemma sequential_append:
  "sequential w h (xs @ ys) = (sequential w h xs \<and> sequential w (h @ xs) ys)"
  by (induction xs arbitrary: h) auto

lemma fix_loop_success:
  assumes "fix_loop w ps d h = (Inr d', h')"
    and "distinct ps"
    and "\<forall>p\<in>set ps. tag_of (node_at d p) \<noteq> None"
  shows "\<exists>sizes. length sizes = length (missing_width d ps)
           \<and> h' = h @ map2 (load_event d) (missing_width d ps) sizes
           \<and> sequential w h (map2 (load_event d) (missing_width d ps) sizes)
           \<and> map (\<lambda>p. getAttribute d' p ''width'') (missing_width d ps)
               = map (\<lambda>sz. Some (string_of_nat (width sz))) sizes
           \<and> (\<forall>q k. \<not> (k = ''width'' \<and> q \<in> set (missing_width d ps))
                 \<longrightarrow> getAttribute d' q k = getAttribute d q k)
           \<and> (\<forall>q. tag_of (node_at d' q) = tag_of (node_at d q))"
  using assms
proof (induction ps arbitrary: d h)
  case Nil
  then show ?case by (simp add: missing_width_def)
next
  case (Cons p ps)
  show ?case
  proof (cases "falsy_attr (getAttribute d p ''width'')")
    case False
    with Cons.prems have run: "fix_loop w ps d h = (Inr d', h')" by simp
    from False have mw: "missing_width d (p # ps) = missing_width d ps"
      by (simp add: missing_width_def)
    from Cons.IH [OF run] Cons.prems(2,3) show ?thesis unfolding mw by simp
  next
    case True
    define s where "s = src_string (getAttribute d p ''src'')"
    from True Cons.prems(1) obtain sz where
      ld: "loadImage w h s = Inr sz"
      and run: "fix_loop w ps (setAttribute d p ''width'' (string_of_nat (width sz)))
                  (h @ [ImageLoad s (Inr sz)]) = (Inr d', h')"
      by (auto simp: getImageSize_def Let_def s_def split: sum.splits)
    define d1 where "d1 = setAttribute d p ''width'' (string_of_nat (width sz))"
    from Cons.prems(2) have pn: "p \<notin> set ps" and dist: "distinct ps" by simp_all
    from Cons.prems(3) have el: "tag_of (node_at d p) \<noteq> None" by simp
    have same: "getAttribute d1 q k = getAttribute d q k" if "q \<noteq> p \<or> k \<noteq> ''width''" for q k
      using that by (auto simp: d1_def getAttribute_setAttribute)
    have atp: "getAttribute d1 p ''width'' = Some (string_of_nat (width sz))"
      using el by (simp add: d1_def getAttribute_setAttribute)
    have tags1: "tag_of (node_at d1 q) = tag_of (node_at d q)" for q
      by (simp add: d1_def tag_of_setAttribute)
    have "getAttribute d1 q ''width'' = getAttribute d q ''width''" if "q \<in> set ps" for q
      using that pn same [of q] by blast
    then have mw1: "missing_width d1 ps = missing_width d ps"
      unfolding missing_width_def by (intro filter_cong) simp_all
    have mw: "missing_width d (p # ps) = p # missing_width d ps"
      using True by (simp add: missing_width_def)
    have pm: "p \<notin> set (missing_width d ps)" using pn by (simp add: missing_width_def)
    have le1: "load_event d1 q = load_event d q" for q
      by (simp add: load_event_def same fun_eq_iff)
    from Cons.prems(3) tags1 have els: "\<forall>q\<in>set ps. tag_of (node_at d1 q) \<noteq> None" by simp
    from Cons.IH [OF run [folded d1_def] dist els]
    obtain sizes where
      len: "length sizes = length (missing_width d ps)"
      and tr: "h' = (h @ [ImageLoad s (Inr sz)]) @ map2 (load_event d) (missing_width d ps) sizes"
      and sq: "sequential w (h @ [ImageLoad s (Inr sz)]) (map2 (load_event d) (missing_width d ps) sizes)"
      and ws: "map (\<lambda>p. getAttribute d' p ''width'') (missing_width d ps)
                 = map (\<lambda>sz. Some (string_of_nat (width sz))) sizes"
      and un: "\<forall>q k. \<not> (k = ''width'' \<and> q \<in> set (missing_width d ps))
                 \<longrightarrow> getAttribute d' q k = getAttribute d1 q k"
      and tg: "\<forall>q. tag_of (node_at d' q) = tag_of (node_at d1 q)"
      unfolding mw1 le1 by blast
    have ev: "load_event d p sz = ImageLoad s (Inr sz)" by (simp add: load_event_def s_def)
    have "length (sz # sizes) = length (missing_width d (p # ps))" using len mw by simp
    moreover have "h' = h @ map2 (load_event d) (missing_width d (p # ps)) (sz # sizes)"
      using tr mw ev by simp
    moreover have "sequential w h (map2 (load_event d) (missing_width d (p # ps)) (sz # sizes))"
      using sq mw ev ld by simp
    moreover have "map (\<lambda>p. getAttribute d' p ''width'') (missing_width d (p # ps))
                     = map (\<lambda>sz. Some (string_of_nat (width sz))) (sz # sizes)"
      using ws mw un pm atp by simp
    moreover have "\<forall>q k. \<not> (k = ''width'' \<and> q \<in> set (missing_width d (p # ps)))
                     \<longrightarrow> getAttribute d' q k = getAttribute d q k"
      using un mw same by auto
    moreover have "\<forall>q. tag_of (node_at d' q) = tag_of (node_at d q)"
      using tg tags1 by simp
    ultimately show ?thesis by blast
  qed
qed

lemma fix_loop_failure:
  assumes "fix_loop w ps d h = (Inl e, h')"
  shows "\<exists>oks s. h' = h @ oks @ [ImageLoad s (Inl e)]
           \<and> (\<forall>x\<in>set oks. is_load x \<and> step_rejected x = None)
           \<and> sequential w h (oks @ [ImageLoad s (Inl e)])"
  using assms
proof (induction ps arbitrary: d h)
  case Nil
  then show ?case by simp
next
  case (Cons p ps)
  show ?case
  proof (cases "falsy_attr (getAttribute d p ''width'')")
    case False
    with Cons show ?thesis by simp
  next
    case True
    define s where "s = src_string (getAttribute d p ''src'')"
    show ?thesis
    proof (cases "loadImage w h s")
      case (Inl e')
      with True Cons.prems have "h' = h @ [] @ [ImageLoad s (Inl e)]" "e' = e"
        by (auto simp: getImageSize_def Let_def s_def)
      with Inl show ?thesis by fastforce
    next
      case (Inr sz)
      with True Cons.prems have
        "fix_loop w ps (setAttribute d p ''width'' (string_of_nat (width sz)))
           (h @ [ImageLoad s (Inr sz)]) = (Inl e, h')"
        by (auto simp: getImageSize_def Let_def s_def)
      from Cons.IH [OF this] obtain oks s' where
        "h' = (h @ [ImageLoad s (Inr sz)]) @ oks @ [ImageLoad s' (Inl e)]"
        "\<forall>x\<in>set oks. is_load x \<and> step_rejected x = None"
        "sequential w (h @ [ImageLoad s (Inr sz)]) (oks @ [ImageLoad s' (Inl e)])"
        by blast
      with Inr have "h' = h @ (ImageLoad s (Inr sz) # oks) @ [ImageLoad s' (Inl e)]
           \<and> (\<forall>x\<in>set (ImageLoad s (Inr sz) # oks). is_load x \<and> step_rejected x = None)
           \<and> sequential w h ((ImageLoad s (Inr sz) # oks) @ [ImageLoad s' (Inl e)])"
        by simp
      then show ?thesis by blast
    qed
  qed
qed

lemma fix_loop_resolves:
  assumes "\<forall>h s. \<exists>sz. loadImage w h s = Inr sz"
  shows "\<exists>d' h'. fix_loop w ps d h = (Inr d', h')"
proof (induction ps arbitrary: d h)
  case Nil
  then show ?case by simp
next
  case (Cons p ps)
  from assms obtain sz where "loadImage w h (src_string (getAttribute d p ''src'')) = Inr sz"
    by blast
  with Cons show ?case by (simp add: getImageSize_def Let_def)
qed

section \<open>Lemmas on the middleware\<close>

lemma middleware_intercept:
  assumes "passes_filters env options"
  shows "middleware w env options =
     (case api_call w [] (save_meta_request env options) of
        (Inl e, h1) \<Rightarrow> (Inl e, h1)
      | (Inr r1, h1) \<Rightarrow>
          (case api_call w h1 (mjml_request (request_data options)) of
             (Inl e, h2) \<Rightarrow> (Inl e, h2)
           | (Inr r2, h2) \<Rightarrow>
               (case fixImagesWidth w (response_mjml r2) h2 of
                  (Inl e, h3) \<Rightarrow> (Inl e, h3)
                | (Inr mjml', h3) \<Rightarrow>
                    (case mjml2html w mjml' of
                       Inl e \<Rightarrow> (Inl e, h3)
                     | Inr html \<Rightarrow>
                         (case api_call w h3 (save_html_request env options html) of
                            (Inl e, h4) \<Rightarrow> (Inl e, h4)
                          | (Inr r3, h4) \<Rightarrow>
                              forward w h4 (strip_meta (email_html_meta env) options))))))"
  using assms
  unfolding middleware_def passes_filters_def Let_def save_meta_request_def
    save_html_request_def
  by auto

lemma fixImagesWidth_success:
  assumes "fixImagesWidth w mjml h = (Inr out, h')"
  shows "\<exists>d' sizes. fixImagesWidth_dom w mjml h = (Inr d', h') \<and> out = serializeHTML w d'
           \<and> h' = h @ image_loads w mjml sizes
           \<and> length sizes = length (missing_width (parseHTML w mjml)
                          (querySelectorAll (parseHTML w mjml) ''mj-image''))
           \<and> (\<forall>x\<in>set (image_loads w mjml sizes). is_load x \<and> step_rejected x = None)
           \<and> sequential w h (image_loads w mjml sizes)"
proof -
  from assms obtain d' where dom: "fixImagesWidth_dom w mjml h = (Inr d', h')"
    and out: "out = serializeHTML w d'"
    by (auto simp: fixImagesWidth_def split: prod.splits sum.splits)
  let ?d = "parseHTML w mjml"
  let ?ps = "querySelectorAll ?d ''mj-image''"
  from dom have run: "fix_loop w ?ps ?d h = (Inr d', h')"
    by (simp add: fixImagesWidth_dom_def Let_def)
  have els: "\<forall>p\<in>set ?ps. tag_of (node_at ?d p) \<noteq> None"
    by (simp add: querySelectorAll_mem)
  from fix_loop_success [OF run querySelectorAll_distinct els]
  obtain sizes where len: "length sizes = length (missing_width ?d ?ps)"
    and tr: "h' = h @ map2 (load_event ?d) (missing_width ?d ?ps) sizes"
    and sq: "sequential w h (map2 (load_event ?d) (missing_width ?d ?ps) sizes)"
    by blast
  have ok: "\<forall>x\<in>set (image_loads w mjml sizes). is_load x \<and> step_rejected x = None"
    by (auto simp: image_loads_def Let_def load_event_def set_zip)
  from len tr sq ok dom out show ?thesis
    by (auto simp: image_loads_def Let_def)
qed

lemma fixImagesWidth_failure:
  assumes "fixImagesWidth w mjml h = (Inl e, h')"
  shows "\<exists>oks s. h' = h @ oks @ [ImageLoad s (Inl e)]
           \<and> (\<forall>x\<in>set oks. is_load x \<and> step_rejected x = None)
           \<and> sequential w h (oks @ [ImageLoad s (Inl e)])"
proof -
  from assms have "fix_loop w (querySelectorAll (parseHTML w mjml) ''mj-image'')
                     (parseHTML w mjml) h = (Inl e, h')"
    by (auto simp: fixImagesWidth_def fixImagesWidth_dom_def Let_def split: prod.splits sum.splits)
  then show ?thesis by (rule fix_loop_failure)
qed

lemma middleware_cases [consumes 2, case_names save_meta_rejected convert_rejected
    image_rejected mjml2html_throws save_html_rejected forwarded]:
  assumes "passes_filters env options" and "middleware w env options = (res, tr)"
  obtains
    e where "res = Inl e" "tr = [ApiFetch (save_meta_request env options) (Inl e)]"
      "sequential w [] tr"
  | r1 e where "res = Inl e"
      "tr = [ApiFetch (save_meta_request env options) (Inr r1),
             ApiFetch (mjml_request (request_data options)) (Inl e)]"
      "sequential w [] tr"
  | r1 r2 oks s e where "res = Inl e"
      "tr = [ApiFetch (save_meta_request env options) (Inr r1),
             ApiFetch (mjml_request (request_data options)) (Inr r2)]
            @ oks @ [ImageLoad s (Inl e)]"
      "\<forall>x\<in>set oks. is_load x \<and> step_rejected x = None"
      "sequential w [] tr"
  | r1 r2 sizes out e where "res = Inl e"
      "tr = [ApiFetch (save_meta_request env options) (Inr r1),
             ApiFetch (mjml_request (request_data options)) (Inr r2)]
            @ image_loads w (response_mjml r2) sizes"
      "length sizes = length (missing_width (parseHTML w (response_mjml r2))
                          (querySelectorAll (parseHTML w (response_mjml r2)) ''mj-image''))"
      "fixImagesWidth w (response_mjml r2)
         [ApiFetch (save_meta_request env options) (Inr r1),
          ApiFetch (mjml_request (request_data options)) (Inr r2)] = (Inr out, tr)"
      "mjml2html w out = Inl e"
      "sequential w [] tr"
  | r1 r2 sizes out html e where "res = Inl e"
      "tr = [ApiFetch (save_meta_request env options) (Inr r1),
             ApiFetch (mjml_request (request_data options)) (Inr r2)]
            @ image_loads w (response_mjml r2) sizes
            @ [ApiFetch (save_html_request env options html) (Inl e)]"
      "length sizes = length (missing_width (parseHTML w (response_mjml r2))
                          (querySelectorAll (parseHTML w (response_mjml r2)) ''mj-image''))"
      "fixImagesWidth w (response_mjml r2)
         [ApiFetch (save_meta_request env options) (Inr r1),
          ApiFetch (mjml_request (request_data options)) (Inr r2)] = (Inr out, butlast tr)"
      "mjml2html w out = Inr html"
      "sequential w [] tr"
  | r1 r2 sizes out html r3 where
      "tr = [ApiFetch (save_meta_request env options) (Inr r1),
             ApiFetch (mjml_request (request_data options)) (Inr r2)]
            @ image_loads w (response_mjml r2) sizes
            @ [ApiFetch (save_html_request env options html) (Inr r3),
               Next (strip_meta (email_html_meta env) options) res]"
      "length sizes = length (missing_width (parseHTML w (response_mjml r2))
                          (querySelectorAll (parseHTML w (response_mjml r2)) ''mj-image''))"
      "fixImagesWidth w (response_mjml r2)
         [ApiFetch (save_meta_request env options) (Inr r1),
          ApiFetch (mjml_request (request_data options)) (Inr r2)] = (Inr out, butlast (butlast tr))"
      "mjml2html w out = Inr html"
      "sequential w [] tr"
proof -
  let ?q1 = "save_meta_request env options"
  let ?q2 = "mjml_request (request_data options)"
  note mw = assms(2) [unfolded middleware_intercept [OF assms(1)]]
  show thesis
  proof (cases "apiFetch w [] ?q1")
    case (Inl e)
    with mw have "res = Inl e" "tr = [ApiFetch ?q1 (Inl e)]"
      by (auto simp: api_call_def Let_def)
    moreover from this Inl have "sequential w [] tr" by simp
    ultimately show thesis by (rule that(1))
  next
    case r1: (Inr r1)
    let ?h1 = "[ApiFetch ?q1 (Inr r1)]"
    show thesis
    proof (cases "apiFetch w ?h1 ?q2")
      case (Inl e)
      with mw r1 have "res = Inl e" "tr = [ApiFetch ?q1 (Inr r1), ApiFetch ?q2 (Inl e)]"
        by (auto simp: api_call_def Let_def)
      moreover from this Inl r1 have "sequential w [] tr" by simp
      ultimately show thesis by (rule that(2))
    next
      case r2: (Inr r2)
      let ?h2 = "[ApiFetch ?q1 (Inr r1), ApiFetch ?q2 (Inr r2)]"
      have s2: "sequential w [] ?h2" using r1 r2 by simp
      from mw r1 r2 have mw2:
        "(case fixImagesWidth w (response_mjml r2) ?h2 of
            (Inl e, h3) \<Rightarrow> (Inl e, h3)
          | (Inr mjml', h3) \<Rightarrow>
              (case mjml2html w mjml' of
                 Inl e \<Rightarrow> (Inl e, h3)
               | Inr html \<Rightarrow>
                   (case api_call w h3 (save_html_request env options html) of
                      (Inl e, h4) \<Rightarrow> (Inl e, h4)
                    | (Inr r3, h4) \<Rightarrow>
                        forward w h4 (strip_meta (email_html_meta env) options)))) = (res, tr)"
        by (simp add: api_call_def Let_def)
      obtain fr h3 where fx: "fixImagesWidth w (response_mjml r2) ?h2 = (fr, h3)"
        by (cases "fixImagesWidth w (response_mjml r2) ?h2")
      show thesis
      proof (cases fr)
        case (Inl e)
        with mw2 fx have res: "res = Inl e" and tr: "tr = h3" by simp_all
        from fixImagesWidth_failure [OF fx [unfolded Inl]] obtain oks s where
          h3: "h3 = ?h2 @ oks @ [ImageLoad s (Inl e)]"
          and oks: "\<forall>x\<in>set oks. is_load x \<and> step_rejected x = None"
          and sq: "sequential w ?h2 (oks @ [ImageLoad s (Inl e)])"
          by blast
        from s2 sq have "sequential w [] (?h2 @ oks @ [ImageLoad s (Inl e)])"
          by (simp add: sequential_append)
        with res tr h3 oks show thesis by (intro that(3); simp)
      next
        case out: (Inr out)
        from fixImagesWidth_success [OF fx [unfolded out]] obtain sizes where
          h3: "h3 = ?h2 @ image_loads w (response_mjml r2) sizes"
          and len: "length sizes = length (missing_width (parseHTML w (response_mjml r2))
                          (querySelectorAll (parseHTML w (response_mjml r2)) ''mj-image''))"
          and sq: "sequential w ?h2 (image_loads w (response_mjml r2) sizes)"
          by blast
        from s2 sq have s3: "sequential w [] h3"
          unfolding h3 by (simp add: sequential_append)
        show thesis
        proof (cases "mjml2html w out")
          case (Inl e)
          with mw2 fx out have "res = Inl e" "tr = h3" by simp_all
          with h3 len fx out Inl s3 show thesis by (intro that(4); simp)
        next
          case html: (Inr html)
          let ?q3 = "save_html_request env options html"
          show thesis
          proof (cases "apiFetch w h3 ?q3")
            case (Inl e)
            with mw2 fx out html have res: "res = Inl e" and tr: "tr = h3 @ [ApiFetch ?q3 (Inl e)]"
              by (auto simp: api_call_def Let_def)
            from s3 Inl have "sequential w [] (h3 @ [ApiFetch ?q3 (Inl e)])"
              by (simp add: sequential_append)
            with res tr h3 len fx out html show thesis by (intro that(5); simp)
          next
            case r3: (Inr r3)
            let ?o = "strip_meta (email_html_meta env) options"
            let ?h4 = "h3 @ [ApiFetch ?q3 (Inr r3)]"
            from mw2 fx out html r3 have res: "res = next_mw w ?h4 ?o"
              and tr: "tr = ?h4 @ [Next ?o res]"
              by (auto simp: api_call_def forward_def Let_def)
            from s3 r3 res have "sequential w [] (?h4 @ [Next ?o res])"
              by (simp add: sequential_append)
            with tr h3 len fx out html show thesis by (intro that(6); simp add: butlast_append)
          qed
        qed
      qed
    qed
  qed
qed

lemma string_of_nat_demo: "string_of_nat 640 = ''640''" "string_of_nat 120 = ''120''" "string_of_nat 12 = ''12''"
  by (simp_all add: string_of_nat.simps)

lemma demo_passes: "passes_filters demo_env demo_options"
  by (simp add: passes_filters_def demo_env_def demo_options_def demo_data_def request_data_def includes_list_def)

lemma demo_run: "middleware demo_world demo_env demo_options = (Inr (Response None), demo_trace)"
  by code_simp

lemma map_of_pick:
  "map_of (pick (Some m) ks) k = (if k \<in> set ks then map_of m k else None)"
  by (induction ks) (auto simp: pick_def List.map_filter_simps split: option.splits)

lemma pick_None [simp]: "pick None ks = []"
  by (simp add: pick_def)

lemma map_of_omit:
  "map_of (omit m ks) k = (if k \<in> set ks then None else map_of m k)"
  by (induction m) (auto simp: omit_def)

lemma passes_filters_post_type:
  assumes "passes_filters env options"
  shows "\<exists>pt. currentPostType env = Some pt \<and> pt \<in> set (mjml_handling_post_types env)"
  using assms by (auto simp: passes_filters_def Let_def includes_list_def split: option.splits)

lemma passes_filters_data:
  assumes "passes_filters env options"
  shows "\<exists>d. opt_data options = Some d \<and> request_data options = d"
  using assms
  by (cases "opt_data options") (auto simp: passes_filters_def Let_def request_data_def empty_data_def)

lemma some_in_path_Some:
  "some_in_path (Some p) ts = Inr (list_ex (\<lambda>t. indexOf p t \<noteq> - 1) ts)"
  by (induction ts) auto

lemma middleware_skips:
  assumes "(opt_method options \<noteq> Some ''POST'' \<and> opt_method options \<noteq> Some ''PUT'')
           \<or> \<not> truthy (data_content (request_data options))
           \<or> \<not> truthy (data_id (request_data options))
           \<or> (\<exists>p. opt_path options = Some p
                  \<and> (\<not> list_ex (\<lambda>t. indexOf p t \<noteq> - 1) (mjml_handling_post_types env)
                       \<or> \<not> includes_list (mjml_handling_post_types env) (currentPostType env)))"
  shows "middleware w env options = (next_mw w [] options, [Next options (next_mw w [] options)])"
  using assms
  by (auto simp: middleware_def Let_def forward_def some_in_path_Some)

lemma inner_requests_pass_through:
  "\<not> passes_filters env (meta_request postType i m)"
  "\<not> passes_filters env (mjml_request d)"
  by (simp_all add: passes_filters_def meta_request_def mjml_request_def request_data_def
      empty_data_def Let_def)

lemma failing_run:
  "middleware failing_world demo_env demo_options = (Inl (Rejected ''load error''), failing_trace)"
  by code_simp

lemma image_loads_kinds:
  "x \<in> set (image_loads w mjml sizes) \<Longrightarrow>
     is_load x \<and> step_rejected x = None \<and> \<not> is_api_call x \<and> \<not> is_next x"
  by (auto simp: image_loads_def Let_def load_event_def set_zip)

lemma filter_api_image_loads [simp]: "filter is_api_call (image_loads w mjml sizes) = []"
  by (auto simp: filter_empty_conv dest: image_loads_kinds)

lemma load_kinds: "is_load x \<Longrightarrow> \<not> is_api_call x \<and> \<not> is_next x"
  by (cases x) auto

lemma next_in_trace:
  assumes "passes_filters env options" and "middleware w env options = (res, tr)"
    and "Next options' r \<in> set tr"
  shows "\<exists>r1 r2 sizes out html r3.
      tr = [ApiFetch (save_meta_request env options) (Inr r1),
            ApiFetch (mjml_request (request_data options)) (Inr r2)]
           @ image_loads w (response_mjml r2) sizes
           @ [ApiFetch (save_html_request env options html) (Inr r3),
              Next (strip_meta (email_html_meta env) options) res]
      \<and> length sizes = length (missing_width (parseHTML w (response_mjml r2))
                          (querySelectorAll (parseHTML w (response_mjml r2)) ''mj-image''))
      \<and> fixImagesWidth w (response_mjml r2)
           [ApiFetch (save_meta_request env options) (Inr r1),
            ApiFetch (mjml_request (request_data options)) (Inr r2)]
          = (Inr out, [ApiFetch (save_meta_request env options) (Inr r1),
                       ApiFetch (mjml_request (request_data options)) (Inr r2)]
                      @ image_loads w (response_mjml r2) sizes)
      \<and> mjml2html w out = Inr html
      \<and> sequential w [] tr
      \<and> options' = strip_meta (email_html_meta env) options \<and> r = res"
  using assms(1,2)
proof (cases rule: middleware_cases)
  case (save_meta_rejected e)
  with assms(3) show ?thesis by simp
next
  case (convert_rejected r1 e)
  with assms(3) show ?thesis by simp
next
  case (image_rejected r1 r2 oks s e)
  with assms(3) have "Next options' r \<in> set oks" by simp
  with image_rejected(3) show ?thesis by auto
next
  case (mjml2html_throws r1 r2 sizes out e)
  with assms(3) have "Next options' r \<in> set (image_loads w (response_mjml r2) sizes)" by simp
  then show ?thesis by (auto dest: image_loads_kinds)
next
  case (save_html_rejected r1 r2 sizes out html e)
  with assms(3) have "Next options' r \<in> set (image_loads w (response_mjml r2) sizes)" by simp
  then show ?thesis by (auto dest: image_loads_kinds)
next
  case (forwarded r1 r2 sizes out html r3)
  from forwarded(1) assms(3) have
    "Next options' r \<in> set (image_loads w (response_mjml r2) sizes)
     \<or> (options' = strip_meta (email_html_meta env) options \<and> r = res)"
    by auto
  then have eq: "options' = strip_meta (email_html_meta env) options \<and> r = res"
    by (auto dest: image_loads_kinds)
  from forwarded(1,3) have fx: "fixImagesWidth w (response_mjml r2)
           [ApiFetch (save_meta_request env options) (Inr r1),
            ApiFetch (mjml_request (request_data options)) (Inr r2)]
          = (Inr out, [ApiFetch (save_meta_request env options) (Inr r1),
                       ApiFetch (mjml_request (request_data options)) (Inr r2)]
                      @ image_loads w (response_mjml r2) sizes)"
    by (simp add: butlast_append)
  from forwarded(1,2,4,5) fx eq show ?thesis by blast
qed

lemma sequential_nth:
  "sequential w h es \<Longrightarrow> i < length es \<Longrightarrow> answered w (h @ take i es) (es ! i)"
proof (induction es arbitrary: h i)
  case Nil
  then show ?case by simp
next
  case (Cons e es)
  show ?case
  proof (cases i)
    case 0
    with Cons.prems show ?thesis by simp
  next
    case (Suc j)
    with Cons.prems have "sequential w (h @ [e]) es" "j < length es" by simp_all
    from Cons.IH [OF this] Suc show ?thesis by simp
  qed
qed

lemma fixImagesWidth_dom_success:
  assumes "fixImagesWidth_dom w mjml h = (Inr d', h')"
  shows "\<exists>sizes. length sizes
                   = length (missing_width (parseHTML w mjml)
                               (querySelectorAll (parseHTML w mjml) ''mj-image''))
           \<and> h' = h @ image_loads w mjml sizes
           \<and> sequential w h (image_loads w mjml sizes)
           \<and> map (\<lambda>p. getAttribute d' p ''width'')
                 (missing_width (parseHTML w mjml)
                    (querySelectorAll (parseHTML w mjml) ''mj-image''))
               = map (\<lambda>sz. Some (string_of_nat (width sz))) sizes
           \<and> (\<forall>q k. \<not> (k = ''width''
                          \<and> q \<in> set (missing_width (parseHTML w mjml)
                                       (querySelectorAll (parseHTML w mjml) ''mj-image'')))
                 \<longrightarrow> getAttribute d' q k = getAttribute (parseHTML w mjml) q k)
           \<and> (\<forall>q. tag_of (node_at d' q) = tag_of (node_at (parseHTML w mjml) q))"
proof -
  let ?d = "parseHTML w mjml"
  let ?ps = "querySelectorAll ?d ''mj-image''"
  from assms have run: "fix_loop w ?ps ?d h = (Inr d', h')"
    by (simp add: fixImagesWidth_dom_def Let_def)
  have els: "\<forall>p\<in>set ?ps. tag_of (node_at ?d p) \<noteq> None"
    by (simp add: querySelectorAll_mem)
  from fix_loop_success [OF run querySelectorAll_distinct els]
  show ?thesis unfolding image_loads_def Let_def by blast
qed

lemma save_meta_request_fields:
  assumes "currentPostType env = Some pt"
  shows "save_meta_request env options =
     \<lparr>opt_method = Some ''POST'',
       opt_path = Some (''/wp/v2/'' @ pt @ ''/'' @ js_to_string (data_id (request_data options))),
       opt_data = Some
         \<lparr>data_content = JUndefined, data_id = JUndefined,
           data_title = JUndefined, data_post_id = JUndefined,
           data_meta = Some (pick (editedPostMeta env) POST_META_WHITELIST),
           data_rest = []\<rparr>,
       opt_rest = []\<rparr>"
  using assms
  by (simp add: save_meta_request_def meta_request_def post_path_def empty_data_def)

lemma save_html_request_fields:
  assumes "currentPostType env = Some pt"
  shows "save_html_request env options html =
     \<lparr>opt_method = Some ''POST'',
       opt_path = Some (''/wp/v2/'' @ pt @ ''/'' @ js_to_string (data_id (request_data options))),
       opt_data = Some
         \<lparr>data_content = JUndefined, data_id = JUndefined,
           data_title = JUndefined, data_post_id = JUndefined,
           data_meta = Some [(email_html_meta env, JStr html)],
           data_rest = []\<rparr>,
       opt_rest = []\<rparr>"
  using assms
  by (simp add: save_html_request_def meta_request_def post_path_def empty_data_def)

lemma mjml_request_fields:
  "mjml_request (request_data options) =
     \<lparr>opt_method = Some ''POST'',
       opt_path = Some ''/newspack-newsletters/v1/post-mjml'',
       opt_data = Some
         \<lparr>data_content = data_content (request_data options), data_id = JUndefined,
           data_title = data_title (request_data options), data_post_id = (data_id (request_data options)),
           data_meta = None,
           data_rest = []\<rparr>,
       opt_rest = []\<rparr>"
  by (simp add: mjml_request_def empty_data_def)

lemma image_loads_fields:
  "image_loads w mjml sizes =
     map2 (\<lambda>p sz. ImageLoad (src_string (getAttribute (parseHTML w mjml) p ''src'')) (Inr sz))
       (filter (\<lambda>p. falsy_attr (getAttribute (parseHTML w mjml) p ''width''))
          (querySelectorAll (parseHTML w mjml) ''mj-image''))
       sizes"
  by (simp add: image_loads_def Let_def missing_width_def load_event_def)

lemma strip_meta_fields:
  "strip_meta name options =
     options\<lparr>opt_data :=
       map_option
         (\<lambda>d. d\<lparr>data_meta := map_option (\<lambda>m. omit m (POST_META_WHITELIST @ [name])) (data_meta d)\<rparr>)
         (opt_data options)\<rparr>"
proof (cases "opt_data options")
  case None
  then show ?thesis by (simp add: strip_meta_def)
next
  case (Some d)
  then show ?thesis by (cases "data_meta d") (simp_all add: strip_meta_def)
qed

lemma post_path_not_mjml_path:
  "''/wp/v2/'' @ pt @ ''/'' @ i \<noteq> ''/newspack-newsletters/v1/post-mjml''"
  by simp

lemma string_of_nat_not_empty: "string_of_nat n \<noteq> []"
  by (subst string_of_nat.simps) simp

lemma succeeding_run_forwards:
  assumes "passes_filters env options" and "middleware w env options = (res, tr)"
    and "(\<exists>r. res = Inr r)
         \<or> ((\<forall>h req. \<exists>r. apiFetch w h req = Inr r)
             \<and> (\<forall>h s. \<exists>sz. loadImage w h s = Inr sz)
             \<and> (\<forall>s. \<exists>html. mjml2html w s = Inr html))"
  shows "Next (strip_meta (email_html_meta env) options) res \<in> set tr"
  using assms(1,2)
proof (cases rule: middleware_cases)
  case (save_meta_rejected e)
  from save_meta_rejected(2,3) have "apiFetch w [] (save_meta_request env options) = Inl e"
    by simp
  with assms(3) save_meta_rejected(1) show ?thesis by (metis Inl_Inr_False)
next
  case (convert_rejected r1 e)
  from convert_rejected(2,3) have
    "apiFetch w [ApiFetch (save_meta_request env options) (Inr r1)]
       (mjml_request (request_data options)) = Inl e"
    by simp
  with assms(3) convert_rejected(1) show ?thesis by (metis Inl_Inr_False)
next
  case (image_rejected r1 r2 oks s e)
  from image_rejected(2,4) have "\<exists>h. loadImage w h s = Inl e"
    by (auto simp: sequential_append)
  with assms(3) image_rejected(1) show ?thesis by (metis Inl_Inr_False)
next
  case (mjml2html_throws r1 r2 sizes out e)
  with assms(3) show ?thesis by (metis Inl_Inr_False)
next
  case (save_html_rejected r1 r2 sizes out html e)
  from save_html_rejected(2,6) have
    "\<exists>h. apiFetch w h (save_html_request env options html) = Inl e"
    by (auto simp: sequential_append)
  with assms(3) save_html_rejected(1) show ?thesis by (metis Inl_Inr_False)
next
  case (forwarded r1 r2 sizes out html r3)
  then show ?thesis by simp
qed

lemma fixImagesWidth_dom_filled:
  assumes "fixImagesWidth_dom w mjml h = (Inr d', h')"
    and "p \<in> set (querySelectorAll (parseHTML w mjml) ''mj-image'')"
    and "falsy_attr (getAttribute (parseHTML w mjml) p ''width'')"
  shows "\<exists>hp sz. prefix h hp
      \<and> loadImage w hp (src_string (getAttribute (parseHTML w mjml) p ''src'')) = Inr sz
      \<and> prefix (hp @ [ImageLoad (src_string (getAttribute (parseHTML w mjml) p ''src''))
                         (Inr sz)]) h'
      \<and> getAttribute d' p ''width'' = Some (string_of_nat (width sz))"
proof -
  let ?d = "parseHTML w mjml"
  let ?ms = "missing_width ?d (querySelectorAll ?d ''mj-image'')"
  from fixImagesWidth_dom_success [OF assms(1)] obtain sizes where
    len: "length sizes = length ?ms"
    and tr: "h' = h @ image_loads w mjml sizes"
    and sq: "sequential w h (image_loads w mjml sizes)"
    and ws: "map (\<lambda>p. getAttribute d' p ''width'') ?ms
               = map (\<lambda>sz. Some (string_of_nat (width sz))) sizes"
    by blast
  let ?evs = "image_loads w mjml sizes"
  have evs: "?evs = map2 (load_event ?d) ?ms sizes" by (simp add: image_loads_def Let_def)
  from assms(2,3) have "p \<in> set ?ms" by (simp add: missing_width_def)
  then obtain i where i: "i < length ?ms" "?ms ! i = p" by (auto simp: in_set_conv_nth)
  let ?s = "src_string (getAttribute ?d p ''src'')"
  let ?hp = "h @ take i ?evs"
  from i len have il: "i < length ?evs" by (simp add: evs)
  from i len have ev: "?evs ! i = ImageLoad ?s (Inr (sizes ! i))"
    by (simp add: evs load_event_def)
  from sequential_nth [OF sq il] ev have ld: "loadImage w ?hp ?s = Inr (sizes ! i)" by simp
  have "h' = (?hp @ [ImageLoad ?s (Inr (sizes ! i))]) @ drop (Suc i) ?evs"
    using tr il ev id_take_nth_drop [OF il] by simp
  then have pre: "prefix (?hp @ [ImageLoad ?s (Inr (sizes ! i))]) h'"
    by (metis prefixI)
  from ws have "map (\<lambda>p. getAttribute d' p ''width'') ?ms ! i
                  = map (\<lambda>sz. Some (string_of_nat (width sz))) sizes ! i"
    by (rule arg_cong)
  with i len have wd: "getAttribute d' p ''width'' = Some (string_of_nat (width (sizes ! i)))"
    by simp
  have "prefix h ?hp" by simp
  with ld pre wd show ?thesis by blast
qed

section \<open>The claims\<close>

text \<open>
  Claim C1, as stated: the allow-listed keys of the outgoing \<^verbatim>\<open>meta\<close> are saved by a
  request of their own, and the remaining keys are stripped from the forwarded payload.
  In the example run the request carries \<^verbatim>\<open>is_public: true\<close> and \<^verbatim>\<open>foo: 1\<close>;
  the first request saves \<^verbatim>\<open>is_public: false\<close> and \<^verbatim>\<open>preview_text\<close>, which are
  the editor's values and not the picked part of the outgoing \<^verbatim>\<open>meta\<close>, and the
  forwarded payload still has \<^verbatim>\<open>foo\<close>, a key outside the allow-list.
\<close>

theorem meta_partition_counterexample:
  "hd (snd (middleware demo_world demo_env demo_options)) =
     ApiFetch
       \<lparr>opt_method = Some ''POST'',
         opt_path = Some ''/wp/v2/newspack_nl_cpt/12'',
         opt_data = Some
           \<lparr>data_content = JUndefined, data_id = JUndefined,
             data_title = JUndefined, data_post_id = JUndefined,
             data_meta = Some [(''is_public'', JBool False), (''preview_text'', JStr ''Hi'')],
             data_rest = []\<rparr>,
         opt_rest = []\<rparr>
       (Inr (Response None))
   \<and> pick (data_meta demo_data) POST_META_WHITELIST = [(''is_public'', JBool True)]
   \<and> last (snd (middleware demo_world demo_env demo_options)) =
       Next (demo_options\<lparr>opt_data := Some (demo_data\<lparr>data_meta := Some [(''foo'', JNum 1)]\<rparr>)\<rparr>)
         (Inr (Response None))
   \<and> ''foo'' \<notin> set POST_META_WHITELIST"
  by code_simp

text \<open>
  Claim C1, amended: for a save request that passes the filters, the first event is a
  POST to \<^verbatim>\<open>/wp/v2/{postType}/{id}\<close> whose data is the one property \<^verbatim>\<open>meta\<close>,
  holding the allow-listed keys of the edited post's \<^verbatim>\<open>meta\<close> in the editor's data
  store with the editor's values (and no other key); and when the request carries a
  \<^verbatim>\<open>meta\<close> and is forwarded, the forwarded options are the original ones with a
  \<^verbatim>\<open>meta\<close> that has lost the allow-listed keys and the key named by
  \<^verbatim>\<open>email_html_meta\<close>, and keeps the remaining keys with their values.
\<close>

theorem meta_partition:
  assumes "passes_filters env options" and "middleware w env options = (res, tr)"
  shows "(\<exists>pt m r rest.
            currentPostType env = Some pt
            \<and> tr = ApiFetch
                     \<lparr>opt_method = Some ''POST'',
                       opt_path = Some (''/wp/v2/'' @ pt @ ''/'' @ js_to_string (data_id (request_data options))),
                       opt_data = Some
                         \<lparr>data_content = JUndefined, data_id = JUndefined,
                           data_title = JUndefined, data_post_id = JUndefined,
                           data_meta = Some m,
                           data_rest = []\<rparr>,
                       opt_rest = []\<rparr>
                     r # rest
            \<and> m = pick (editedPostMeta env) POST_META_WHITELIST
            \<and> (\<forall>k. map_of m k =
                  (if k \<in> set POST_META_WHITELIST then (case editedPostMeta env of None \<Rightarrow> None | Some em \<Rightarrow> map_of em k) else None)))
       \<and> (\<forall>d m options' r.
             opt_data options = Some d \<longrightarrow> data_meta d = Some m \<longrightarrow> Next options' r \<in> set tr \<longrightarrow>
             (\<exists>m'. options' = options\<lparr>opt_data := Some (d\<lparr>data_meta := Some m'\<rparr>)\<rparr>
                \<and> (\<forall>k. map_of m' k =
                      (if k \<in> set POST_META_WHITELIST \<or> k = email_html_meta env then None
                       else map_of m k))))"
proof -
  from passes_filters_post_type [OF assms(1)] obtain pt where pt: "currentPostType env = Some pt"
    by blast
  have "\<exists>rest. tr = ApiFetch (save_meta_request env options)
                       (apiFetch w [] (save_meta_request env options)) # rest"
    using assms by (cases rule: middleware_cases) (auto simp: sequential_append)
  then obtain rest where
    tr: "tr = ApiFetch (save_meta_request env options)
                (apiFetch w [] (save_meta_request env options)) # rest"
    by blast
  have keys: "map_of (pick (editedPostMeta env) POST_META_WHITELIST) k =
                  (if k \<in> set POST_META_WHITELIST then (case editedPostMeta env of None \<Rightarrow> None | Some em \<Rightarrow> map_of em k) else None)" for k
    by (cases "editedPostMeta env") (simp_all add: map_of_pick)
  have first: "\<exists>pt m r rest.
            currentPostType env = Some pt
            \<and> tr = ApiFetch
                     \<lparr>opt_method = Some ''POST'',
                       opt_path = Some (''/wp/v2/'' @ pt @ ''/'' @ js_to_string (data_id (request_data options))),
                       opt_data = Some
                         \<lparr>data_content = JUndefined, data_id = JUndefined,
                           data_title = JUndefined, data_post_id = JUndefined,
                           data_meta = Some m,
                           data_rest = []\<rparr>,
                       opt_rest = []\<rparr>
                     r # rest
            \<and> m = pick (editedPostMeta env) POST_META_WHITELIST
            \<and> (\<forall>k. map_of m k =
                  (if k \<in> set POST_META_WHITELIST then (case editedPostMeta env of None \<Rightarrow> None | Some em \<Rightarrow> map_of em k) else None))"
    using pt tr [unfolded save_meta_request_fields [OF pt]] keys by blast
  have "\<exists>m'. options' = options\<lparr>opt_data := Some (d\<lparr>data_meta := Some m'\<rparr>)\<rparr>
                \<and> (\<forall>k. map_of m' k =
                      (if k \<in> set POST_META_WHITELIST \<or> k = email_html_meta env then None
                       else map_of m k))"
    if "opt_data options = Some d" "data_meta d = Some m" "Next options' r \<in> set tr"
    for d m options' r
  proof -
    from next_in_trace [OF assms that(3)]
    have "options' = strip_meta (email_html_meta env) options" by blast
    with that(1,2) have "options' = options\<lparr>opt_data := Some (d\<lparr>data_meta :=
        Some (omit m (POST_META_WHITELIST @ [email_html_meta env]))\<rparr>)\<rparr>"
      by (simp add: strip_meta_def)
    then show ?thesis
      by (intro exI [of _ "omit m (POST_META_WHITELIST @ [email_html_meta env])"])
        (simp add: map_of_omit)
  qed
  with first show ?thesis by blast
qed

theorem meta_partition_witness:
  "passes_filters demo_env demo_options
   \<and> hd (snd (middleware demo_world demo_env demo_options)) =
       ApiFetch
         \<lparr>opt_method = Some ''POST'',
           opt_path = Some ''/wp/v2/newspack_nl_cpt/12'',
           opt_data = Some
             \<lparr>data_content = JUndefined, data_id = JUndefined,
               data_title = JUndefined, data_post_id = JUndefined,
               data_meta = Some [(''is_public'', JBool False), (''preview_text'', JStr ''Hi'')],
               data_rest = []\<rparr>,
           opt_rest = []\<rparr>
         (Inr (Response None))
   \<and> last (snd (middleware demo_world demo_env demo_options)) =
       Next (demo_options\<lparr>opt_data := Some (demo_data\<lparr>data_meta := Some [(''foo'', JNum 1)]\<rparr>)\<rparr>)
         (Inr (Response None))
   \<and> map_of [(''foo'', JNum 1)] ''is_public'' = None
   \<and> map_of [(''foo'', JNum 1)] ''newspack_email_html'' = None
   \<and> map_of [(''foo'', JNum 1)] ''foo'' = Some (JNum 1)"
proof -
  let ?o = "demo_options\<lparr>opt_data := Some (demo_data\<lparr>data_meta := Some [(''foo'', JNum 1)]\<rparr>)\<rparr>"
  let ?m = "[(''is_public'', JBool True), (''newspack_email_html'', JStr ''old''),
             (''foo'', JNum 1)]"
  have mem: "Next ?o (Inr (Response None)) \<in> set demo_trace"
    by (simp add: demo_trace_def)
  have d: "opt_data demo_options = Some demo_data" by (simp add: demo_options_def)
  have m: "data_meta demo_data = Some ?m" by (simp add: demo_data_def)
  from meta_partition [OF demo_passes demo_run] d m mem
  obtain m' where o': "?o = demo_options\<lparr>opt_data := Some (demo_data\<lparr>data_meta := Some m'\<rparr>)\<rparr>"
    and keys: "\<forall>k. map_of m' k =
                 (if k \<in> set POST_META_WHITELIST \<or> k = email_html_meta demo_env then None
                  else map_of ?m k)"
    by blast
  from o' have "Some (demo_data\<lparr>data_meta := Some [(''foo'', JNum 1)]\<rparr>)
                  = Some (demo_data\<lparr>data_meta := Some m'\<rparr>)"
    by (metis options.select_convs(3) options.update_convs(3) options.surjective)
  then have "data_meta (demo_data\<lparr>data_meta := Some [(''foo'', JNum 1)]\<rparr>)
               = data_meta (demo_data\<lparr>data_meta := Some m'\<rparr>)"
    by simp
  then have "m' = [(''foo'', JNum 1)]" by simp
  with keys have k: "map_of [(''foo'', JNum 1)] ''is_public'' = None"
    "map_of [(''foo'', JNum 1)] ''newspack_email_html'' = None"
    by (simp_all add: POST_META_WHITELIST_def demo_env_def)
  have run: "hd (snd (middleware demo_world demo_env demo_options)) =
       ApiFetch
         \<lparr>opt_method = Some ''POST'',
           opt_path = Some ''/wp/v2/newspack_nl_cpt/12'',
           opt_data = Some
             \<lparr>data_content = JUndefined, data_id = JUndefined,
               data_title = JUndefined, data_post_id = JUndefined,
               data_meta = Some [(''is_public'', JBool False), (''preview_text'', JStr ''Hi'')],
               data_rest = []\<rparr>,
           opt_rest = []\<rparr>
         (Inr (Response None))
   \<and> last (snd (middleware demo_world demo_env demo_options)) =
       Next (demo_options\<lparr>opt_data := Some (demo_data\<lparr>data_meta := Some [(''foo'', JNum 1)]\<rparr>)\<rparr>)
         (Inr (Response None))"
    by code_simp
  from k run demo_passes show ?thesis by simp
qed

text \<open>
  Claim C2. When every image load succeeds, \<^verbatim>\<open>fixImagesWidth\<close> resolves with the
  serialised fragment, and every \<^verbatim>\<open>mj-image\<close> element that has no \<^verbatim>\<open>width\<close>
  attribute in the parsed markup is an \<^verbatim>\<open>mj-image\<close> of the fragment whose
  \<^verbatim>\<open>width\<close> is the decimal numeral of the width that a load of the element's
  \<^verbatim>\<open>src\<close>, recorded in the trace, resolved with.
\<close>

theorem images_without_width_get_natural_width:
  assumes "\<forall>h s. \<exists>sz. loadImage w h s = Inr sz"
  shows "\<exists>d' h'. fixImagesWidth_dom w mjml h = (Inr d', h')
      \<and> fixImagesWidth w mjml h = (Inr (serializeHTML w d'), h')
      \<and> (\<forall>p\<in>set (querySelectorAll (parseHTML w mjml) ''mj-image'').
            getAttribute (parseHTML w mjml) p ''width'' = None \<longrightarrow>
            tag_of (node_at d' p) = Some ''mj-image''
            \<and> (\<exists>hp sz.
                  prefix h hp
                  \<and> loadImage w hp (src_string (getAttribute (parseHTML w mjml) p ''src'')) = Inr sz
                  \<and> prefix (hp @ [ImageLoad (src_string (getAttribute (parseHTML w mjml) p ''src''))
                                     (Inr sz)]) h'
                  \<and> getAttribute d' p ''width'' = Some (string_of_nat (width sz))))"
proof -
  let ?d = "parseHTML w mjml"
  let ?ps = "querySelectorAll ?d ''mj-image''"
  let ?ms = "missing_width ?d ?ps"
  from fix_loop_resolves [OF assms] obtain d' h' where "fix_loop w ?ps ?d h = (Inr d', h')"
    by blast
  then have dom: "fixImagesWidth_dom w mjml h = (Inr d', h')"
    by (simp add: fixImagesWidth_dom_def Let_def)
  then have ret: "fixImagesWidth w mjml h = (Inr (serializeHTML w d'), h')"
    by (simp add: fixImagesWidth_def)
  from fixImagesWidth_dom_success [OF dom] obtain sizes where
    len: "length sizes = length ?ms"
    and tr: "h' = h @ image_loads w mjml sizes"
    and sq: "sequential w h (image_loads w mjml sizes)"
    and ws: "map (\<lambda>p. getAttribute d' p ''width'') ?ms
               = map (\<lambda>sz. Some (string_of_nat (width sz))) sizes"
    and tg: "\<forall>q. tag_of (node_at d' q) = tag_of (node_at ?d q)"
    by blast
  let ?evs = "image_loads w mjml sizes"
  have evs: "?evs = map2 (load_event ?d) ?ms sizes" by (simp add: image_loads_def Let_def)
  have "tag_of (node_at d' p) = Some ''mj-image''
        \<and> (\<exists>hp sz. prefix h hp
              \<and> loadImage w hp (src_string (getAttribute ?d p ''src'')) = Inr sz
              \<and> prefix (hp @ [ImageLoad (src_string (getAttribute ?d p ''src'')) (Inr sz)]) h'
              \<and> getAttribute d' p ''width'' = Some (string_of_nat (width sz)))"
    if p: "p \<in> set ?ps" and none: "getAttribute ?d p ''width'' = None" for p
  proof -
    from p tg have tag: "tag_of (node_at d' p) = Some ''mj-image''"
      by (simp add: querySelectorAll_mem)
    from p none have "p \<in> set ?ms" by (simp add: missing_width_def)
    then obtain i where i: "i < length ?ms" "?ms ! i = p" by (auto simp: in_set_conv_nth)
    let ?s = "src_string (getAttribute ?d p ''src'')"
    let ?hp = "h @ take i ?evs"
    from i len have il: "i < length ?evs" by (simp add: evs)
    from i len have ev: "?evs ! i = ImageLoad ?s (Inr (sizes ! i))"
      by (simp add: evs load_event_def)
    from sequential_nth [OF sq il] ev have ld: "loadImage w ?hp ?s = Inr (sizes ! i)" by simp
    have "h' = (?hp @ [ImageLoad ?s (Inr (sizes ! i))]) @ drop (Suc i) ?evs"
      using tr il ev id_take_nth_drop [OF il] by simp
    then have pre: "prefix (?hp @ [ImageLoad ?s (Inr (sizes ! i))]) h'"
      by (metis prefixI)
    from ws have "map (\<lambda>p. getAttribute d' p ''width'') ?ms ! i
                    = map (\<lambda>sz. Some (string_of_nat (width sz))) sizes ! i"
      by simp
    with i len have wd: "getAttribute d' p ''width'' = Some (string_of_nat (width (sizes ! i)))"
      by simp
    have "prefix h ?hp" by simp
    with tag ld pre wd show ?thesis by blast
  qed
  with dom ret show ?thesis by blast
qed

theorem images_without_width_get_natural_width_witness:
  "fixImagesWidth_dom demo_world demo_mjml [] =
     (Inr demo_fixed,
      [ImageLoad ''a.png'' (Inr \<lparr>width = 640, height = 480\<rparr>),
       ImageLoad ''b.png'' (Inr \<lparr>width = 120, height = 90\<rparr>)])
   \<and> querySelectorAll (parseHTML demo_world demo_mjml) ''mj-image'' = [[0, 0], [0, 1], [0, 2]]
   \<and> getAttribute (parseHTML demo_world demo_mjml) [0, 0] ''width'' = None
   \<and> getAttribute demo_fixed [0, 0] ''width'' = Some ''640''"
proof -
  have ok: "\<forall>h s. \<exists>sz. loadImage demo_world h s = Inr sz"
    by (simp add: demo_world_def)
  have run: "fixImagesWidth_dom demo_world demo_mjml [] =
     (Inr demo_fixed,
      [ImageLoad ''a.png'' (Inr \<lparr>width = 640, height = 480\<rparr>),
       ImageLoad ''b.png'' (Inr \<lparr>width = 120, height = 90\<rparr>)])"
    by code_simp
  have sel: "querySelectorAll (parseHTML demo_world demo_mjml) ''mj-image'' = [[0, 0], [0, 1], [0, 2]]"
    by code_simp
  have none: "getAttribute (parseHTML demo_world demo_mjml) [0, 0] ''width'' = None"
    by code_simp
  from images_without_width_get_natural_width [OF ok, of demo_mjml "[]"]
  obtain d' h' where a: "fixImagesWidth_dom demo_world demo_mjml [] = (Inr d', h')"
    and b: "\<forall>p\<in>set (querySelectorAll (parseHTML demo_world demo_mjml) ''mj-image'').
              getAttribute (parseHTML demo_world demo_mjml) p ''width'' = None \<longrightarrow>
              tag_of (node_at d' p) = Some ''mj-image''
              \<and> (\<exists>hp sz.
                    prefix [] hp
                    \<and> loadImage demo_world hp
                         (src_string (getAttribute (parseHTML demo_world demo_mjml) p ''src'')) = Inr sz
                    \<and> prefix (hp @ [ImageLoad (src_string (getAttribute (parseHTML demo_world demo_mjml) p ''src''))
                                     (Inr sz)]) h'
                    \<and> getAttribute d' p ''width'' = Some (string_of_nat (width sz)))"
    by blast
  from a run have d': "d' = demo_fixed" by simp
  have mem: "[0, 0] \<in> set (querySelectorAll (parseHTML demo_world demo_mjml) ''mj-image'')"
    unfolding sel by simp
  from b mem none have "tag_of (node_at d' [0, 0]) = Some ''mj-image''" by blast
  moreover have "getAttribute demo_fixed [0, 0] ''width'' = Some ''640''"
    by code_simp
  ultimately show ?thesis using run sel none by simp
qed

text \<open>
  Claim C3. For a save request that passes the filters: when a step rejects (a request sent
  with \<^verbatim>\<open>apiFetch\<close> or an image load), the middleware rejects with the same error,
  the rejected step is the last event of the trace, every step before it had succeeded,
  and \<^verbatim>\<open>next\<close> is never called. Nothing follows the rejection, so no request undoes
  what an earlier step saved: when steps came before, the first of them is the request
  that saved the allow-listed \<^verbatim>\<open>meta\<close>, and it stands.
\<close>

theorem rejected_step_aborts:
  assumes "passes_filters env options" and "middleware w env options = (res, tr)"
    and "x \<in> set tr" and "step_rejected x = Some e"
  shows "res = Inl e \<and> last tr = x
       \<and> (\<forall>y\<in>set (butlast tr). step_rejected y = None)
       \<and> (\<forall>y\<in>set tr. \<not> is_next y)
       \<and> (1 < length tr \<longrightarrow>
            (\<exists>r1. hd tr = ApiFetch (meta_request (currentPostType env)
                                      (data_id (request_data options))
                                      (pick (editedPostMeta env) POST_META_WHITELIST)) (Inr r1)))"
  using assms(1,2)
proof (cases rule: middleware_cases)
  case (save_meta_rejected e')
  with assms(3,4) show ?thesis by auto
next
  case (convert_rejected r1 e')
  with assms(3,4) show ?thesis by (auto simp: save_meta_request_def)
next
  case (image_rejected r1 r2 oks s e')
  from image_rejected(3) have oks: "\<forall>y\<in>set oks. step_rejected y = None \<and> \<not> is_next y"
    by (auto dest: load_kinds)
  from assms(3,4) image_rejected(2) oks have x: "x = ImageLoad s (Inl e')" by auto
  with assms(4) have "e' = e" by simp
  with image_rejected(1,2) x oks show ?thesis
    by (auto simp: save_meta_request_def butlast_append)
next
  case (mjml2html_throws r1 r2 sizes out e')
  with assms(3,4) have "x \<in> set (image_loads w (response_mjml r2) sizes)" by auto
  with assms(4) show ?thesis by (auto dest: image_loads_kinds)
next
  case (save_html_rejected r1 r2 sizes out html e')
  have lds: "\<forall>y\<in>set (image_loads w (response_mjml r2) sizes). step_rejected y = None \<and> \<not> is_next y"
    by (auto dest: image_loads_kinds)
  from assms(3,4) save_html_rejected(2) lds
  have x: "x = ApiFetch (save_html_request env options html) (Inl e')" by auto
  with assms(4) have "e' = e" by simp
  with save_html_rejected(1,2) x lds show ?thesis
    by (auto simp: save_meta_request_def butlast_append)
next
  case (forwarded r1 r2 sizes out html r3)
  with assms(3,4) have "x \<in> set (image_loads w (response_mjml r2) sizes)" by auto
  with assms(4) show ?thesis by (auto dest: image_loads_kinds)
qed

theorem rejected_step_aborts_witness:
  "fst (middleware failing_world demo_env demo_options) = Inl (Rejected ''load error'')
   \<and> last failing_trace = ImageLoad ''b.png'' (Inl (Rejected ''load error''))
   \<and> filter is_next failing_trace = []
   \<and> hd failing_trace =
       ApiFetch (meta_request (Some ''newspack_nl_cpt'') (JNum 12)
                   [(''is_public'', JBool False), (''preview_text'', JStr ''Hi'')])
         (Inr (Response None))"
proof -
  have mem: "ImageLoad ''b.png'' (Inl (Rejected ''load error'')) \<in> set failing_trace"
    by (simp add: failing_trace_def)
  have rej: "step_rejected (ImageLoad ''b.png'' (Inl (Rejected ''load error'')))
               = Some (Rejected ''load error'')"
    by simp
  from rejected_step_aborts [OF demo_passes failing_run mem rej]
  have "last failing_trace = ImageLoad ''b.png'' (Inl (Rejected ''load error''))" by blast
  then show ?thesis by (simp add: failing_run) (simp add: failing_trace_def)
qed

text \<open>
  Claim C4. A request that fails one of the four filters is forwarded unchanged, with no
  other call (lemma \<open>middleware_skips\<close>), as long as it carries a \<^verbatim>\<open>path\<close>. A POST
  or PUT request with \<^verbatim>\<open>content\<close> and \<^verbatim>\<open>id\<close> that is addressed by \<^verbatim>\<open>url\<close>
  and has no \<^verbatim>\<open>path\<close> is not forwarded: the test \<^verbatim>\<open>path.indexOf( postType )\<close>
  throws a TypeError, whatever the current post type is, and the middleware rejects
  without calling \<^verbatim>\<open>next\<close>.
\<close>

theorem request_without_path_throws:
  assumes "opt_method options = Some ''POST'' \<or> opt_method options = Some ''PUT''"
    and "truthy (data_content (request_data options))"
    and "truthy (data_id (request_data options))"
    and "opt_path options = None"
    and "mjml_handling_post_types env \<noteq> []"
  shows "middleware w env options = (Inl TypeError, [])"
proof -
  from assms(5) obtain t ts where "mjml_handling_post_types env = t # ts"
    by (cases "mjml_handling_post_types env") auto
  with assms(1-4) show ?thesis by (auto simp: middleware_def Let_def)
qed

theorem request_without_path_throws_witness:
  "middleware demo_world demo_env pathless_options = (Inl TypeError, [])
   \<and> opt_path pathless_options = None
   \<and> opt_method pathless_options = Some ''POST''"
proof -
  have "opt_method pathless_options = Some ''POST'' \<or> opt_method pathless_options = Some ''PUT''"
    by (simp add: pathless_options_def demo_options_def)
  moreover have "truthy (data_content (request_data pathless_options))"
    "truthy (data_id (request_data pathless_options))"
    by (simp_all add: pathless_options_def demo_options_def demo_data_def request_data_def)
  moreover have "opt_path pathless_options = None" by (simp add: pathless_options_def)
  moreover have "mjml_handling_post_types demo_env \<noteq> []" by (simp add: demo_env_def)
  ultimately show ?thesis
    using request_without_path_throws [of pathless_options demo_env demo_world]
    by (simp add: pathless_options_def demo_options_def)
qed

text \<open>
  Claim C5. Take a save request that passes the filters and succeeds: its promise
  resolves, or it runs in a world where every request, every image load and the
  conversion succeed. Then the trace is exactly, in this order: the POST that saves the
  allow-listed \<^verbatim>\<open>meta\<close> read from the editor, the POST that sends \<^verbatim>\<open>post_id\<close>,
  \<^verbatim>\<open>title\<close> and \<^verbatim>\<open>content\<close> to be converted to MJML, one load for each image of
  the returned markup whose \<^verbatim>\<open>width\<close> is absent or empty, in document order, the
  POST that saves as \<^verbatim>\<open>meta\<close> the HTML that \<^verbatim>\<open>mjml2html\<close> made of the markup
  returned by \<^verbatim>\<open>fixImagesWidth\<close>, and last the call of \<^verbatim>\<open>next\<close> on the stripped
  options, whose outcome is the outcome of the middleware. The trace is sequential: each
  call is answered from all the calls before it.
\<close>

theorem steps_in_order:
  assumes "passes_filters env options" and "middleware w env options = (res, tr)"
    and "(\<exists>r. res = Inr r)
         \<or> ((\<forall>h req. \<exists>r. apiFetch w h req = Inr r)
             \<and> (\<forall>h s. \<exists>sz. loadImage w h s = Inr sz)
             \<and> (\<forall>s. \<exists>html. mjml2html w s = Inr html))"
  shows "\<exists>pt r1 r2 sizes out html r3.
      currentPostType env = Some pt
      \<and> length sizes
          = length (filter (\<lambda>p. falsy_attr (getAttribute (parseHTML w (response_mjml r2)) p ''width''))
                (querySelectorAll (parseHTML w (response_mjml r2)) ''mj-image''))
      \<and> tr = [ApiFetch
                \<lparr>opt_method = Some ''POST'',
                  opt_path = Some (''/wp/v2/'' @ pt @ ''/'' @ js_to_string (data_id (request_data options))),
                  opt_data = Some
                    \<lparr>data_content = JUndefined, data_id = JUndefined,
                      data_title = JUndefined, data_post_id = JUndefined,
                      data_meta = Some (pick (editedPostMeta env) POST_META_WHITELIST),
                      data_rest = []\<rparr>,
                  opt_rest = []\<rparr>
                (Inr r1),
              ApiFetch
                \<lparr>opt_method = Some ''POST'',
                  opt_path = Some ''/newspack-newsletters/v1/post-mjml'',
                  opt_data = Some
                    \<lparr>data_content = data_content (request_data options), data_id = JUndefined,
                      data_title = data_title (request_data options), data_post_id = (data_id (request_data options)),
                      data_meta = None,
                      data_rest = []\<rparr>,
                  opt_rest = []\<rparr>
                (Inr r2)]
           @ map2 (\<lambda>p sz. ImageLoad (src_string (getAttribute (parseHTML w (response_mjml r2)) p ''src'')) (Inr sz))
              (filter (\<lambda>p. falsy_attr (getAttribute (parseHTML w (response_mjml r2)) p ''width''))
                (querySelectorAll (parseHTML w (response_mjml r2)) ''mj-image'')) sizes
           @ [ApiFetch
                \<lparr>opt_method = Some ''POST'',
                  opt_path = Some (''/wp/v2/'' @ pt @ ''/'' @ js_to_string (data_id (request_data options))),
                  opt_data = Some
                    \<lparr>data_content = JUndefined, data_id = JUndefined,
                      data_title = JUndefined, data_post_id = JUndefined,
                      data_meta = Some [(email_html_meta env, JStr html)],
                      data_rest = []\<rparr>,
                  opt_rest = []\<rparr>
                (Inr r3),
              Next (options\<lparr>opt_data :=
                 map_option
                   (\<lambda>d. d\<lparr>data_meta :=
                          map_option (\<lambda>m. omit m (POST_META_WHITELIST @ [email_html_meta env]))
                            (data_meta d)\<rparr>)
                   (opt_data options)\<rparr>)
                res]
      \<and> fst (fixImagesWidth w (response_mjml r2) (take 2 tr)) = Inr out
      \<and> mjml2html w out = Inr html
      \<and> sequential w [] tr"
proof -
  from passes_filters_post_type [OF assms(1)] obtain pt where pt: "currentPostType env = Some pt"
    by blast
  from succeeding_run_forwards [OF assms]
  have "Next (strip_meta (email_html_meta env) options) res \<in> set tr" .
  from next_in_trace [OF assms(1,2) this] obtain r1 r2 sizes out html r3 where
    tr: "tr = [ApiFetch (save_meta_request env options) (Inr r1),
            ApiFetch (mjml_request (request_data options)) (Inr r2)]
           @ image_loads w (response_mjml r2) sizes
           @ [ApiFetch (save_html_request env options html) (Inr r3),
              Next (strip_meta (email_html_meta env) options) res]"
    and len: "length sizes = length (missing_width (parseHTML w (response_mjml r2))
                          (querySelectorAll (parseHTML w (response_mjml r2)) ''mj-image''))"
    and fx: "fixImagesWidth w (response_mjml r2)
           [ApiFetch (save_meta_request env options) (Inr r1),
            ApiFetch (mjml_request (request_data options)) (Inr r2)]
          = (Inr out, [ApiFetch (save_meta_request env options) (Inr r1),
                       ApiFetch (mjml_request (request_data options)) (Inr r2)]
                      @ image_loads w (response_mjml r2) sizes)"
    and html: "mjml2html w out = Inr html"
    and sq: "sequential w [] tr"
    by blast
  from tr have "take 2 tr = [ApiFetch (save_meta_request env options) (Inr r1),
            ApiFetch (mjml_request (request_data options)) (Inr r2)]"
    by simp
  with fx have out: "fst (fixImagesWidth w (response_mjml r2) (take 2 tr)) = Inr out" by simp
  note tr' = tr [unfolded save_meta_request_fields [OF pt] save_html_request_fields [OF pt]
      mjml_request_fields image_loads_fields strip_meta_fields]
  note len' = len [unfolded missing_width_def]
  from pt len' tr' out html sq show ?thesis by blast
qed

theorem steps_in_order_witness:
  "snd (middleware demo_world demo_env demo_options) =
     [ApiFetch
        \<lparr>opt_method = Some ''POST'',
          opt_path = Some ''/wp/v2/newspack_nl_cpt/12'',
          opt_data = Some
            \<lparr>data_content = JUndefined, data_id = JUndefined,
              data_title = JUndefined, data_post_id = JUndefined,
              data_meta = Some [(''is_public'', JBool False), (''preview_text'', JStr ''Hi'')],
              data_rest = []\<rparr>,
          opt_rest = []\<rparr>
        (Inr (Response None)),
      ApiFetch
        \<lparr>opt_method = Some ''POST'',
          opt_path = Some ''/newspack-newsletters/v1/post-mjml'',
          opt_data = Some
            \<lparr>data_content = JStr ''<p>Hello</p>'', data_id = JUndefined,
              data_title = JStr ''News'', data_post_id = JNum 12,
              data_meta = None,
              data_rest = []\<rparr>,
          opt_rest = []\<rparr>
        (Inr (Response (Some demo_mjml))),
      ImageLoad ''a.png'' (Inr \<lparr>width = 640, height = 480\<rparr>),
      ImageLoad ''b.png'' (Inr \<lparr>width = 120, height = 90\<rparr>),
      ApiFetch
        \<lparr>opt_method = Some ''POST'',
          opt_path = Some ''/wp/v2/newspack_nl_cpt/12'',
          opt_data = Some
            \<lparr>data_content = JUndefined, data_id = JUndefined,
              data_title = JUndefined, data_post_id = JUndefined,
              data_meta = Some [(''newspack_email_html'', JStr (''<html>'' @ demo_fixed_mjml @ ''</html>''))],
              data_rest = []\<rparr>,
          opt_rest = []\<rparr>
        (Inr (Response None)),
      Next (demo_options\<lparr>opt_data := Some (demo_data\<lparr>data_meta := Some [(''foo'', JNum 1)]\<rparr>)\<rparr>)
        (Inr (Response None))]
   \<and> fst (middleware demo_world demo_env demo_options) = Inr (Response None)
   \<and> sequential demo_world [] (snd (middleware demo_world demo_env demo_options))"
proof -
  have ok: "(\<exists>r. Inr (Response None) = (Inr r :: error + response))
         \<or> ((\<forall>h req. \<exists>r. apiFetch demo_world h req = Inr r)
             \<and> (\<forall>h s. \<exists>sz. loadImage demo_world h s = Inr sz)
             \<and> (\<forall>s. \<exists>html. mjml2html demo_world s = Inr html))"
    by simp
  from steps_in_order [OF demo_passes demo_run ok]
  have sq: "sequential demo_world [] demo_trace" by blast
  have "snd (middleware demo_world demo_env demo_options) =
     [ApiFetch
        \<lparr>opt_method = Some ''POST'',
          opt_path = Some ''/wp/v2/newspack_nl_cpt/12'',
          opt_data = Some
            \<lparr>data_content = JUndefined, data_id = JUndefined,
              data_title = JUndefined, data_post_id = JUndefined,
              data_meta = Some [(''is_public'', JBool False), (''preview_text'', JStr ''Hi'')],
              data_rest = []\<rparr>,
          opt_rest = []\<rparr>
        (Inr (Response None)),
      ApiFetch
        \<lparr>opt_method = Some ''POST'',
          opt_path = Some ''/newspack-newsletters/v1/post-mjml'',
          opt_data = Some
            \<lparr>data_content = JStr ''<p>Hello</p>'', data_id = JUndefined,
              data_title = JStr ''News'', data_post_id = JNum 12,
              data_meta = None,
              data_rest = []\<rparr>,
          opt_rest = []\<rparr>
        (Inr (Response (Some demo_mjml))),
      ImageLoad ''a.png'' (Inr \<lparr>width = 640, height = 480\<rparr>),
      ImageLoad ''b.png'' (Inr \<lparr>width = 120, height = 90\<rparr>),
      ApiFetch
        \<lparr>opt_method = Some ''POST'',
          opt_path = Some ''/wp/v2/newspack_nl_cpt/12'',
          opt_data = Some
            \<lparr>data_content = JUndefined, data_id = JUndefined,
              data_title = JUndefined, data_post_id = JUndefined,
              data_meta = Some [(''newspack_email_html'', JStr (''<html>'' @ demo_fixed_mjml @ ''</html>''))],
              data_rest = []\<rparr>,
          opt_rest = []\<rparr>
        (Inr (Response None)),
      Next (demo_options\<lparr>opt_data := Some (demo_data\<lparr>data_meta := Some [(''foo'', JNum 1)]\<rparr>)\<rparr>)
        (Inr (Response None))]"
    by code_simp
  with sq show ?thesis by (simp add: demo_run)
qed

text \<open>
  Claim C6, as stated: exactly two network calls precede the forwarding. The example run
  sends three requests with \<^verbatim>\<open>apiFetch\<close>.
\<close>

theorem two_network_calls_counterexample:
  "length (filter is_api_call (snd (middleware demo_world demo_env demo_options))) = 3"
  by (simp add: demo_run) (simp add: demo_trace_def)

text \<open>
  Claim C6, amended: when a save request passes the filters and is forwarded, the
  middleware has sent exactly three requests with \<^verbatim>\<open>apiFetch\<close>, each a POST, one
  after the other: the first and the third to \<^verbatim>\<open>/wp/v2/{postType}/{id}\<close> (save the
  allow-listed \<^verbatim>\<open>meta\<close>, save the HTML), the second to
  \<^verbatim>\<open>/newspack-newsletters/v1/post-mjml\<close> (convert the content), a different path.
  The trace is sequential, and the call of \<^verbatim>\<open>next\<close> is its last event.
\<close>

theorem three_api_calls_before_forwarding:
  assumes "passes_filters env options" and "middleware w env options = (res, tr)"
    and "Next options' r \<in> set tr"
  shows "\<exists>pt r1 r2 r3 html.
      currentPostType env = Some pt
      \<and> filter is_api_call tr =
        [ApiFetch
           \<lparr>opt_method = Some ''POST'',
             opt_path = Some (''/wp/v2/'' @ pt @ ''/'' @ js_to_string (data_id (request_data options))),
             opt_data = Some
               \<lparr>data_content = JUndefined, data_id = JUndefined,
                 data_title = JUndefined, data_post_id = JUndefined,
                 data_meta = Some (pick (editedPostMeta env) POST_META_WHITELIST),
                 data_rest = []\<rparr>,
             opt_rest = []\<rparr>
           (Inr r1),
         ApiFetch
           \<lparr>opt_method = Some ''POST'',
             opt_path = Some ''/newspack-newsletters/v1/post-mjml'',
             opt_data = Some
               \<lparr>data_content = data_content (request_data options), data_id = JUndefined,
                 data_title = data_title (request_data options), data_post_id = (data_id (request_data options)),
                 data_meta = None,
                 data_rest = []\<rparr>,
             opt_rest = []\<rparr>
           (Inr r2),
         ApiFetch
           \<lparr>opt_method = Some ''POST'',
             opt_path = Some (''/wp/v2/'' @ pt @ ''/'' @ js_to_string (data_id (request_data options))),
             opt_data = Some
               \<lparr>data_content = JUndefined, data_id = JUndefined,
                 data_title = JUndefined, data_post_id = JUndefined,
                 data_meta = Some [(email_html_meta env, JStr html)],
                 data_rest = []\<rparr>,
             opt_rest = []\<rparr>
           (Inr r3)]
      \<and> ''/wp/v2/'' @ pt @ ''/'' @ js_to_string (data_id (request_data options))
          \<noteq> ''/newspack-newsletters/v1/post-mjml''
      \<and> length (filter is_api_call tr) = 3
      \<and> sequential w [] tr
      \<and> last tr = Next options' r"
proof -
  from passes_filters_post_type [OF assms(1)] obtain pt where pt: "currentPostType env = Some pt"
    by blast
  from next_in_trace [OF assms] obtain r1 r2 sizes out html r3 where
    tr: "tr = [ApiFetch (save_meta_request env options) (Inr r1),
            ApiFetch (mjml_request (request_data options)) (Inr r2)]
           @ image_loads w (response_mjml r2) sizes
           @ [ApiFetch (save_html_request env options html) (Inr r3),
              Next (strip_meta (email_html_meta env) options) res]"
    and sq: "sequential w [] tr"
    and eq: "options' = strip_meta (email_html_meta env) options \<and> r = res"
    by blast
  from tr have fl: "filter is_api_call tr =
      [ApiFetch (save_meta_request env options) (Inr r1),
       ApiFetch (mjml_request (request_data options)) (Inr r2),
       ApiFetch (save_html_request env options html) (Inr r3)]"
    by simp
  then have three: "length (filter is_api_call tr) = 3" by simp
  from tr eq have lst: "last tr = Next options' r" by simp
  note fl' = fl [unfolded save_meta_request_fields [OF pt] save_html_request_fields [OF pt]
      mjml_request_fields]
  from pt fl' three sq lst post_path_not_mjml_path show ?thesis by blast
qed

theorem three_api_calls_before_forwarding_witness:
  "filter is_api_call (snd (middleware demo_world demo_env demo_options)) =
     [ApiFetch
        \<lparr>opt_method = Some ''POST'',
          opt_path = Some ''/wp/v2/newspack_nl_cpt/12'',
          opt_data = Some
            \<lparr>data_content = JUndefined, data_id = JUndefined,
              data_title = JUndefined, data_post_id = JUndefined,
              data_meta = Some [(''is_public'', JBool False), (''preview_text'', JStr ''Hi'')],
              data_rest = []\<rparr>,
          opt_rest = []\<rparr>
        (Inr (Response None)),
      ApiFetch
        \<lparr>opt_method = Some ''POST'',
          opt_path = Some ''/newspack-newsletters/v1/post-mjml'',
          opt_data = Some
            \<lparr>data_content = JStr ''<p>Hello</p>'', data_id = JUndefined,
              data_title = JStr ''News'', data_post_id = JNum 12,
              data_meta = None,
              data_rest = []\<rparr>,
          opt_rest = []\<rparr>
        (Inr (Response (Some demo_mjml))),
      ApiFetch
        \<lparr>opt_method = Some ''POST'',
          opt_path = Some ''/wp/v2/newspack_nl_cpt/12'',
          opt_data = Some
            \<lparr>data_content = JUndefined, data_id = JUndefined,
              data_title = JUndefined, data_post_id = JUndefined,
              data_meta = Some [(''newspack_email_html'', JStr (''<html>'' @ demo_fixed_mjml @ ''</html>''))],
              data_rest = []\<rparr>,
          opt_rest = []\<rparr>
        (Inr (Response None))]
   \<and> last (snd (middleware demo_world demo_env demo_options)) =
       Next (demo_options\<lparr>opt_data := Some (demo_data\<lparr>data_meta := Some [(''foo'', JNum 1)]\<rparr>)\<rparr>)
         (Inr (Response None))
   \<and> sequential demo_world [] (snd (middleware demo_world demo_env demo_options))"
proof -
  have mem: "Next (demo_options\<lparr>opt_data := Some (demo_data\<lparr>data_meta := Some [(''foo'', JNum 1)]\<rparr>)\<rparr>)
       (Inr (Response None)) \<in> set demo_trace"
    by (simp add: demo_trace_def)
  from three_api_calls_before_forwarding [OF demo_passes demo_run mem]
  have sq: "sequential demo_world [] demo_trace" by blast
  have "filter is_api_call (snd (middleware demo_world demo_env demo_options)) =
     [ApiFetch
        \<lparr>opt_method = Some ''POST'',
          opt_path = Some ''/wp/v2/newspack_nl_cpt/12'',
          opt_data = Some
            \<lparr>data_content = JUndefined, data_id = JUndefined,
              data_title = JUndefined, data_post_id = JUndefined,
              data_meta = Some [(''is_public'', JBool False), (''preview_text'', JStr ''Hi'')],
              data_rest = []\<rparr>,
          opt_rest = []\<rparr>
        (Inr (Response None)),
      ApiFetch
        \<lparr>opt_method = Some ''POST'',
          opt_path = Some ''/newspack-newsletters/v1/post-mjml'',
          opt_data = Some
            \<lparr>data_content = JStr ''<p>Hello</p>'', data_id = JUndefined,
              data_title = JStr ''News'', data_post_id = JNum 12,
              data_meta = None,
              data_rest = []\<rparr>,
          opt_rest = []\<rparr>
        (Inr (Response (Some demo_mjml))),
      ApiFetch
        \<lparr>opt_method = Some ''POST'',
          opt_path = Some ''/wp/v2/newspack_nl_cpt/12'',
          opt_data = Some
            \<lparr>data_content = JUndefined, data_id = JUndefined,
              data_title = JUndefined, data_post_id = JUndefined,
              data_meta = Some [(''newspack_email_html'', JStr (''<html>'' @ demo_fixed_mjml @ ''</html>''))],
              data_rest = []\<rparr>,
          opt_rest = []\<rparr>
        (Inr (Response None))]
   \<and> last (snd (middleware demo_world demo_env demo_options)) =
       Next (demo_options\<lparr>opt_data := Some (demo_data\<lparr>data_meta := Some [(''foo'', JNum 1)]\<rparr>)\<rparr>)
         (Inr (Response None))"
    by code_simp
  with sq show ?thesis by (simp add: demo_run)
qed

text \<open>
  Claim C7. For a save request that passes the filters, every request the middleware
  sends with \<^verbatim>\<open>apiFetch\<close> goes to \<^verbatim>\<open>/wp/v2/{postType}/{id}\<close> or to
  \<^verbatim>\<open>/newspack-newsletters/v1/post-mjml\<close>; the only other events of the trace are the
  loads of images and the call of \<^verbatim>\<open>next\<close>.
\<close>

theorem only_two_endpoints:
  assumes "passes_filters env options" and "middleware w env options = (res, tr)"
  shows "\<exists>pt. currentPostType env = Some pt
      \<and> (\<forall>x\<in>set tr.
            (\<exists>req r. x = ApiFetch req r
               \<and> (opt_path req = Some (''/wp/v2/'' @ pt @ ''/''
                                         @ js_to_string (data_id (request_data options)))
                   \<or> opt_path req = Some ''/newspack-newsletters/v1/post-mjml''))
            \<or> is_load x \<or> is_next x)"
proof -
  from passes_filters_post_type [OF assms(1)] obtain pt where pt: "currentPostType env = Some pt"
    by blast
  let ?ok = "\<lambda>x. (\<exists>req r. x = ApiFetch req r
               \<and> (opt_path req = Some (''/wp/v2/'' @ pt @ ''/''
                                         @ js_to_string (data_id (request_data options)))
                   \<or> opt_path req = Some ''/newspack-newsletters/v1/post-mjml''))
            \<or> is_load x \<or> is_next x"
  have q1: "?ok (ApiFetch (save_meta_request env options) r)" for r
    using pt by (simp add: save_meta_request_def meta_request_def post_path_def)
  have q2: "?ok (ApiFetch (mjml_request (request_data options)) r)" for r
    by (simp add: mjml_request_def)
  have q3: "?ok (ApiFetch (save_html_request env options html) r)" for r html
    using pt by (simp add: save_html_request_def meta_request_def post_path_def)
  have ld: "?ok x" if "x \<in> set (image_loads w mjml sizes)" for x mjml sizes
    using image_loads_kinds [OF that] by simp
  have "\<forall>x\<in>set tr. ?ok x"
    using assms
  proof (cases rule: middleware_cases)
    case (save_meta_rejected e)
    with q1 show ?thesis by simp
  next
    case (convert_rejected r1 e)
    with q1 q2 show ?thesis by simp
  next
    case (image_rejected r1 r2 oks s e)
    with q1 q2 show ?thesis by auto
  next
    case (mjml2html_throws r1 r2 sizes out e)
    with q1 q2 ld show ?thesis by auto
  next
    case (save_html_rejected r1 r2 sizes out html e)
    with q1 q2 q3 ld show ?thesis by auto
  next
    case (forwarded r1 r2 sizes out html r3)
    with q1 q2 q3 ld show ?thesis by auto
  qed
  with pt show ?thesis by blast
qed

theorem only_two_endpoints_witness:
  "[opt_path req. ApiFetch req r \<leftarrow> demo_trace] =
     [Some ''/wp/v2/newspack_nl_cpt/12'', Some ''/newspack-newsletters/v1/post-mjml'',
      Some ''/wp/v2/newspack_nl_cpt/12'']
   \<and> ''/wp/v2/'' @ ''newspack_nl_cpt'' @ ''/'' @ js_to_string (data_id (request_data demo_options))
       = ''/wp/v2/newspack_nl_cpt/12''"
  using only_two_endpoints [OF demo_passes demo_run]
  by (simp add: demo_trace_def meta_request_def mjml_request_def post_path_def
      string_of_nat_demo request_data_def demo_options_def demo_data_def)

text \<open>
  Claim C8. When a save request passes the filters and is forwarded, the options given to
  \<^verbatim>\<open>next\<close> are the original ones, except that a \<^verbatim>\<open>meta\<close> object in the data
  has lost the keys of \<open>POST_META_WHITELIST\<close> and the key named by
  \<^verbatim>\<open>email_html_meta\<close>; every other key of \<^verbatim>\<open>meta\<close> keeps its value. A request
  without \<^verbatim>\<open>meta\<close> is forwarded as it came.
\<close>

theorem forwarded_meta_stripped:
  assumes "passes_filters env options" and "middleware w env options = (res, tr)"
    and "Next options' r \<in> set tr"
  shows "(\<forall>d. opt_data options = Some d \<longrightarrow> data_meta d = None \<longrightarrow> options' = options)
       \<and> (\<forall>d m. opt_data options = Some d \<longrightarrow> data_meta d = Some m \<longrightarrow>
             options' = options\<lparr>opt_data := Some (d\<lparr>data_meta :=
                          Some (omit m (POST_META_WHITELIST @ [email_html_meta env]))\<rparr>)\<rparr>
             \<and> (\<forall>k. map_of (omit m (POST_META_WHITELIST @ [email_html_meta env])) k
                      = (if k \<in> set POST_META_WHITELIST \<or> k = email_html_meta env then None
                         else map_of m k)))"
proof -
  from next_in_trace [OF assms] have "options' = strip_meta (email_html_meta env) options"
    by blast
  then show ?thesis by (auto simp: strip_meta_def map_of_omit)
qed

theorem forwarded_meta_stripped_witness:
  "last demo_trace =
     Next (demo_options\<lparr>opt_data := Some (demo_data\<lparr>data_meta := Some [(''foo'', JNum 1)]\<rparr>)\<rparr>)
       (Inr (Response None))
   \<and> omit [(''is_public'', JBool True), (''newspack_email_html'', JStr ''old''), (''foo'', JNum 1)]
        (POST_META_WHITELIST @ [''newspack_email_html'']) = [(''foo'', JNum 1)]"
proof -
  let ?o = "demo_options\<lparr>opt_data := Some (demo_data\<lparr>data_meta := Some [(''foo'', JNum 1)]\<rparr>)\<rparr>"
  have mem: "Next ?o (Inr (Response None)) \<in> set demo_trace"
    by (simp add: demo_trace_def)
  have d: "opt_data demo_options = Some demo_data" by (simp add: demo_options_def)
  have m: "data_meta demo_data = Some [(''is_public'', JBool True),
             (''newspack_email_html'', JStr ''old''), (''foo'', JNum 1)]"
    by (simp add: demo_data_def)
  from forwarded_meta_stripped [OF demo_passes demo_run mem] d m
  have "?o = demo_options\<lparr>opt_data := Some (demo_data\<lparr>data_meta :=
          Some (omit [(''is_public'', JBool True), (''newspack_email_html'', JStr ''old''),
                      (''foo'', JNum 1)]
                  (POST_META_WHITELIST @ [email_html_meta demo_env]))\<rparr>)\<rparr>"
    by blast
  then have "omit [(''is_public'', JBool True), (''newspack_email_html'', JStr ''old''),
                      (''foo'', JNum 1)]
                  (POST_META_WHITELIST @ [''newspack_email_html'']) = [(''foo'', JNum 1)]"
    by (simp add: omit_def POST_META_WHITELIST_def)
  then show ?thesis by (simp add: demo_trace_def)
qed

text \<open>
  Claim C9, as stated: every \<^verbatim>\<open>mj-image\<close> that had a \<^verbatim>\<open>width\<close> attribute keeps
  its value. In the example the second image has the attribute with the empty value; the
  test \<^verbatim>\<open>! element.getAttribute( 'width' )\<close> holds for it, and its value becomes
  \<^verbatim>\<open>120\<close>, the width of the loaded image.
\<close>

theorem width_kept_counterexample:
  "parseHTML demo_world demo_mjml = demo_template
   \<and> tag_of (node_at demo_template [0, 1]) = Some ''mj-image''
   \<and> getAttribute demo_template [0, 1] ''width'' = Some []
   \<and> fst (fixImagesWidth_dom demo_world demo_mjml []) = Inr demo_fixed
   \<and> getAttribute demo_fixed [0, 1] ''width'' = Some ''120''"
  by code_simp

text \<open>
  Claim C9, amended: when \<^verbatim>\<open>fixImagesWidth\<close> resolves, the fragment it serialises has
  the elements of the parsed markup; every \<^verbatim>\<open>mj-image\<close> element of it has a
  \<^verbatim>\<open>width\<close> attribute that is not empty; every element whose \<^verbatim>\<open>width\<close>
  attribute was not empty keeps its value; and every \<^verbatim>\<open>mj-image\<close> whose
  \<^verbatim>\<open>width\<close> was absent or empty has as \<^verbatim>\<open>width\<close> the decimal numeral of the
  width that a load of its \<^verbatim>\<open>src\<close>, recorded in the trace, resolved with.
\<close>

theorem every_image_has_width:
  assumes "fixImagesWidth w mjml h = (Inr out, h')"
  shows "\<exists>d'. fixImagesWidth_dom w mjml h = (Inr d', h') \<and> out = serializeHTML w d'
      \<and> (\<forall>p. tag_of (node_at d' p) = tag_of (node_at (parseHTML w mjml) p))
      \<and> (\<forall>p. tag_of (node_at d' p) = Some ''mj-image'' \<longrightarrow>
               (\<exists>v. getAttribute d' p ''width'' = Some v \<and> v \<noteq> []))
      \<and> (\<forall>p v. getAttribute (parseHTML w mjml) p ''width'' = Some v \<longrightarrow> v \<noteq> [] \<longrightarrow>
               getAttribute d' p ''width'' = Some v)
      \<and> (\<forall>p. tag_of (node_at (parseHTML w mjml) p) = Some ''mj-image'' \<longrightarrow>
               (getAttribute (parseHTML w mjml) p ''width'' = None
                \<or> getAttribute (parseHTML w mjml) p ''width'' = Some []) \<longrightarrow>
               (\<exists>hp sz.
                  prefix h hp
                  \<and> loadImage w hp (src_string (getAttribute (parseHTML w mjml) p ''src'')) = Inr sz
                  \<and> prefix (hp @ [ImageLoad (src_string (getAttribute (parseHTML w mjml) p ''src''))
                                     (Inr sz)]) h'
                  \<and> getAttribute d' p ''width'' = Some (string_of_nat (width sz))))"
proof -
  let ?d = "parseHTML w mjml"
  let ?ps = "querySelectorAll ?d ''mj-image''"
  let ?ms = "missing_width ?d ?ps"
  obtain fr hh where fd: "fixImagesWidth_dom w mjml h = (fr, hh)"
    by (cases "fixImagesWidth_dom w mjml h")
  with assms obtain d' where fr: "fr = Inr d'"
    by (cases fr) (simp_all add: fixImagesWidth_def)
  from assms fd fr have dom: "fixImagesWidth_dom w mjml h = (Inr d', h')"
    and out: "out = serializeHTML w d'"
    by (simp_all add: fixImagesWidth_def)
  from fixImagesWidth_dom_success [OF dom] obtain sizes :: "imgsize list" where
    un: "\<forall>q k. \<not> (k = ''width'' \<and> q \<in> set ?ms)
               \<longrightarrow> getAttribute d' q k = getAttribute ?d q k"
    and tg: "\<forall>q. tag_of (node_at d' q) = tag_of (node_at ?d q)"
    by blast
  have filled: "\<exists>hp sz. prefix h hp
        \<and> loadImage w hp (src_string (getAttribute ?d p ''src'')) = Inr sz
        \<and> prefix (hp @ [ImageLoad (src_string (getAttribute ?d p ''src'')) (Inr sz)]) h'
        \<and> getAttribute d' p ''width'' = Some (string_of_nat (width sz))"
    if "tag_of (node_at ?d p) = Some ''mj-image''"
      "getAttribute ?d p ''width'' = None \<or> getAttribute ?d p ''width'' = Some []" for p
  proof -
    from that(1) have "p \<in> set ?ps" by (simp add: querySelectorAll_mem)
    moreover from that(2) have "falsy_attr (getAttribute ?d p ''width'')" by auto
    ultimately show ?thesis by (rule fixImagesWidth_dom_filled [OF dom])
  qed
  have has: "\<exists>v. getAttribute d' p ''width'' = Some v \<and> v \<noteq> []"
    if "tag_of (node_at d' p) = Some ''mj-image''" for p
  proof (cases "falsy_attr (getAttribute ?d p ''width'')")
    case True
    then have "getAttribute ?d p ''width'' = None \<or> getAttribute ?d p ''width'' = Some []"
      by (cases "getAttribute ?d p ''width''") auto
    moreover from that tg have "tag_of (node_at ?d p) = Some ''mj-image''" by simp
    ultimately obtain sz :: imgsize where
      "getAttribute d' p ''width'' = Some (string_of_nat (width sz))"
      using filled by blast
    then show ?thesis by (simp add: string_of_nat_not_empty)
  next
    case False
    then obtain v where v: "getAttribute ?d p ''width'' = Some v" "v \<noteq> []"
      by (cases "getAttribute ?d p ''width''") auto
    from False have "p \<notin> set ?ms" by (simp add: missing_width_def)
    with un have "getAttribute d' p ''width'' = getAttribute ?d p ''width''" by blast
    with v show ?thesis by simp
  qed
  have kept: "getAttribute d' p ''width'' = Some v"
    if "getAttribute ?d p ''width'' = Some v" "v \<noteq> []" for p v
  proof -
    from that have "\<not> falsy_attr (getAttribute ?d p ''width'')" by simp
    then have "p \<notin> set ?ms" by (simp add: missing_width_def)
    with un have "getAttribute d' p ''width'' = getAttribute ?d p ''width''" by blast
    with that show ?thesis by simp
  qed
  show ?thesis
  proof (intro exI [of _ d'] conjI allI impI)
    show "fixImagesWidth_dom w mjml h = (Inr d', h')" by (rule dom)
    show "out = serializeHTML w d'" by (rule out)
    show "tag_of (node_at d' p) = tag_of (node_at ?d p)" for p using tg by simp
    show "\<exists>v. getAttribute d' p ''width'' = Some v \<and> v \<noteq> []"
      if "tag_of (node_at d' p) = Some ''mj-image''" for p
      using that by (rule has)
    show "getAttribute d' p ''width'' = Some v"
      if "getAttribute ?d p ''width'' = Some v" "v \<noteq> []" for p v
      using that by (rule kept)
    show "\<exists>hp sz. prefix h hp
        \<and> loadImage w hp (src_string (getAttribute ?d p ''src'')) = Inr sz
        \<and> prefix (hp @ [ImageLoad (src_string (getAttribute ?d p ''src'')) (Inr sz)]) h'
        \<and> getAttribute d' p ''width'' = Some (string_of_nat (width sz))"
      if "tag_of (node_at ?d p) = Some ''mj-image''"
        "getAttribute ?d p ''width'' = None \<or> getAttribute ?d p ''width'' = Some []" for p
      using that by (rule filled)
  qed
qed

theorem every_image_has_width_witness:
  "fixImagesWidth demo_world demo_mjml [] =
     (Inr demo_fixed_mjml,
      [ImageLoad ''a.png'' (Inr \<lparr>width = 640, height = 480\<rparr>),
       ImageLoad ''b.png'' (Inr \<lparr>width = 120, height = 90\<rparr>)])
   \<and> map (\<lambda>p. getAttribute (parseHTML demo_world demo_mjml) p ''width'') [[0, 0], [0, 1], [0, 2]]
       = [None, Some [], Some ''300px'']
   \<and> map (\<lambda>p. getAttribute demo_fixed p ''width'') [[0, 0], [0, 1], [0, 2]]
       = [Some ''640'', Some ''120'', Some ''300px'']
   \<and> loadImage demo_world [ImageLoad ''a.png'' (Inr \<lparr>width = 640, height = 480\<rparr>)] ''b.png''
       = Inr \<lparr>width = 120, height = 90\<rparr>"
proof -
  have run: "fixImagesWidth demo_world demo_mjml [] =
     (Inr demo_fixed_mjml,
      [ImageLoad ''a.png'' (Inr \<lparr>width = 640, height = 480\<rparr>),
       ImageLoad ''b.png'' (Inr \<lparr>width = 120, height = 90\<rparr>)])"
    by code_simp
  have w2: "getAttribute (parseHTML demo_world demo_mjml) [0, 2] ''width'' = Some ''300px''"
    by code_simp
  have dom: "fixImagesWidth_dom demo_world demo_mjml [] =
     (Inr demo_fixed,
      [ImageLoad ''a.png'' (Inr \<lparr>width = 640, height = 480\<rparr>),
       ImageLoad ''b.png'' (Inr \<lparr>width = 120, height = 90\<rparr>)])"
    by code_simp
  from every_image_has_width [OF run] dom w2
  have "getAttribute demo_fixed [0, 2] ''width'' = Some ''300px''" by auto
  moreover have "map (\<lambda>p. getAttribute (parseHTML demo_world demo_mjml) p ''width'')
                   [[0, 0], [0, 1], [0, 2]] = [None, Some [], Some ''300px'']"
    by code_simp
  moreover have "map (\<lambda>p. getAttribute demo_fixed p ''width'') [[0, 0], [0, 1], [0, 2]]
       = [Some ''640'', Some ''120'', Some ''300px'']"
    by code_simp
  moreover have "loadImage demo_world [ImageLoad ''a.png'' (Inr \<lparr>width = 640, height = 480\<rparr>)]
                   ''b.png'' = Inr \<lparr>width = 120, height = 90\<rparr>"
    by code_simp
  ultimately show ?thesis using run by simp
qed

text \<open>
  Claim C10. For a save request that passes the filters, the first event is a POST to
  \<^verbatim>\<open>/wp/v2/{postType}/{id}\<close> whose data is the one property \<^verbatim>\<open>meta\<close>: the
  allow-listed keys picked from the edited post's \<^verbatim>\<open>meta\<close> of the editor's data
  store, each with the editor's value. The \<^verbatim>\<open>meta\<close> of the intercepted request has
  no part in it: with any other \<^verbatim>\<open>meta\<close> in the request the first event is the same.
  In the example the editor has \<^verbatim>\<open>is_public: false\<close>, the request has
  \<^verbatim>\<open>is_public: true\<close>, and \<^verbatim>\<open>false\<close> is saved.
\<close>

theorem whitelisted_meta_from_editor_store:
  assumes "passes_filters env options" and "middleware w env options = (res, tr)"
  shows "\<exists>pt r rest.
           currentPostType env = Some pt
           \<and> tr = ApiFetch
                    \<lparr>opt_method = Some ''POST'',
                      opt_path = Some (''/wp/v2/'' @ pt @ ''/'' @ js_to_string (data_id (request_data options))),
                      opt_data = Some
                        \<lparr>data_content = JUndefined, data_id = JUndefined,
                          data_title = JUndefined, data_post_id = JUndefined,
                          data_meta = Some (pick (editedPostMeta env) POST_META_WHITELIST),
                          data_rest = []\<rparr>,
                      opt_rest = []\<rparr>
                    r # rest
           \<and> (\<forall>k. map_of (pick (editedPostMeta env) POST_META_WHITELIST) k =
                 (if k \<in> set POST_META_WHITELIST then (case editedPostMeta env of None \<Rightarrow> None | Some em \<Rightarrow> map_of em k) else None))
           \<and> (\<forall>d m. opt_data options = Some d \<longrightarrow>
                 hd (snd (middleware w env (options\<lparr>opt_data := Some (d\<lparr>data_meta := m\<rparr>)\<rparr>)))
                   = hd tr)"
proof -
  from passes_filters_post_type [OF assms(1)] obtain pt where pt: "currentPostType env = Some pt"
    by blast
  have first: "\<exists>rest. tr' = ApiFetch (save_meta_request env options')
                          (apiFetch w [] (save_meta_request env options')) # rest"
    if "passes_filters env options'" "middleware w env options' = (res', tr')" for options' res' tr'
    using that
    by (cases rule: middleware_cases) (auto simp: sequential_append)
  from first [OF assms] obtain rest where
    tr: "tr = ApiFetch (save_meta_request env options)
                (apiFetch w [] (save_meta_request env options)) # rest"
    by blast
  have keys: "map_of (pick (editedPostMeta env) POST_META_WHITELIST) k =
                  (if k \<in> set POST_META_WHITELIST then (case editedPostMeta env of None \<Rightarrow> None | Some em \<Rightarrow> map_of em k) else None)" for k
    by (cases "editedPostMeta env") (simp_all add: map_of_pick)
  have same: "hd (snd (middleware w env (options\<lparr>opt_data := Some (d\<lparr>data_meta := m\<rparr>)\<rparr>))) = hd tr"
    if d: "opt_data options = Some d" for d m
  proof -
    let ?o = "options\<lparr>opt_data := Some (d\<lparr>data_meta := m\<rparr>)\<rparr>"
    from assms(1) d have p: "passes_filters env ?o"
      by (simp add: passes_filters_def request_data_def Let_def)
    have q: "save_meta_request env ?o = save_meta_request env options"
      using d by (simp add: save_meta_request_def request_data_def)
    obtain res' tr' where run: "middleware w env ?o = (res', tr')"
      by (cases "middleware w env ?o")
    from first [OF p run] obtain rest' where
      "tr' = ApiFetch (save_meta_request env ?o) (apiFetch w [] (save_meta_request env ?o)) # rest'"
      by blast
    with run tr q show ?thesis by simp
  qed
  from pt tr [unfolded save_meta_request_fields [OF pt]] keys same show ?thesis by blast
qed

theorem whitelisted_meta_from_editor_store_witness:
  "hd (snd (middleware demo_world demo_env demo_options)) =
     ApiFetch
       \<lparr>opt_method = Some ''POST'',
         opt_path = Some ''/wp/v2/newspack_nl_cpt/12'',
         opt_data = Some
           \<lparr>data_content = JUndefined, data_id = JUndefined,
             data_title = JUndefined, data_post_id = JUndefined,
             data_meta = Some [(''is_public'', JBool False), (''preview_text'', JStr ''Hi'')],
             data_rest = []\<rparr>,
         opt_rest = []\<rparr>
       (Inr (Response None))
   \<and> editedPostMeta demo_env
       = Some [(''is_public'', JBool False), (''preview_text'', JStr ''Hi''),
               (''template_id'', JNum 3)]
   \<and> data_meta demo_data
       = Some [(''is_public'', JBool True), (''newspack_email_html'', JStr ''old''),
               (''foo'', JNum 1)]
   \<and> map_of (pick (editedPostMeta demo_env) POST_META_WHITELIST) ''is_public''
       = Some (JBool False)
   \<and> map_of (pick (editedPostMeta demo_env) POST_META_WHITELIST) ''template_id'' = None"
proof -
  from whitelisted_meta_from_editor_store [OF demo_passes demo_run]
  have keys: "\<forall>k. map_of (pick (editedPostMeta demo_env) POST_META_WHITELIST) k =
                 (if k \<in> set POST_META_WHITELIST
                  then (case editedPostMeta demo_env of None \<Rightarrow> None | Some em \<Rightarrow> map_of em k)
                  else None)"
    by blast
  then have "map_of (pick (editedPostMeta demo_env) POST_META_WHITELIST) ''is_public''
               = Some (JBool False)"
    "map_of (pick (editedPostMeta demo_env) POST_META_WHITELIST) ''template_id'' = None"
    by (simp_all add: POST_META_WHITELIST_def demo_env_def)
  moreover have "hd (snd (middleware demo_world demo_env demo_options)) =
     ApiFetch
       \<lparr>opt_method = Some ''POST'',
         opt_path = Some ''/wp/v2/newspack_nl_cpt/12'',
         opt_data = Some
           \<lparr>data_content = JUndefined, data_id = JUndefined,
             data_title = JUndefined, data_post_id = JUndefined,
             data_meta = Some [(''is_public'', JBool False), (''preview_text'', JStr ''Hi'')],
             data_rest = []\<rparr>,
         opt_rest = []\<rparr>
       (Inr (Response None))"
    by code_simp
  ultimately show ?thesis by (simp add: demo_env_def demo_data_def)
qed

end
